theory Spec2Isabelle
  imports Main "HOL-Library.Word"
begin

unbundle bit_operations_syntax

section \<open>Data model of \<open>mbr.c\<close>\<close>

text \<open>
  Bytes are \<open>uint8_t\<close>, block numbers are \<open>uint32_t\<close>.  A buffer is the list of the
  bytes it holds.  Status values are C \<open>int\<close>s; no arithmetic is done on them, so they
  are modelled as \<open>int\<close>.
\<close>

type_synonym byte = "8 word"
type_synonym buffer = "byte list"

text \<open>
  The type of a device's \<open>read\<close> entry, already applied to the device it belongs to:
  \<open>dev->read(dev, buf, buf_size, block)\<close>.  It receives the buffer, its size and the
  block number, works on the state \<open>'w\<close> of the outside world (the hardware behind the
  driver), and yields the \<open>int\<close> it returns, the buffer afterwards and the new state
  of the world.
\<close>

type_synonym 'w read_op = "buffer \<Rightarrow> nat \<Rightarrow> 32 word \<Rightarrow> 'w \<Rightarrow> (int \<times> buffer) \<times> 'w"

text \<open>
  A device name is a \<open>char *\<close>: a pointer to a buffer.  The model holds the number of
  bytes the buffer was allocated with (\<open>None\<close> when that number is not defined) and the
  characters stored from its start on, before the terminating zero.  The name lies
  within its buffer when the characters and the terminating zero fit into the bytes
  allocated; a name that does not is a write past the end of the allocation.
\<close>

record name_buffer =
  allocated :: "nat option"
  stored :: string

definition fits :: "name_buffer \<Rightarrow> bool" where
  "fits b = (case allocated b of None \<Rightarrow> False | Some n \<Rightarrow> length (stored b) + 1 \<le> n)"

text \<open>
  The entry \<open>read\<close> of a device is a pointer to a function that is handed the device
  itself.  For a device behind a driver the model holds what the call
  \<open>dev->read(dev, ...)\<close> does, a \<open>read_op\<close>.  For a partition device it holds the
  pointer, which is \<open>mbr_read\<close>; the call hands \<open>mbr_read\<close> the device as it is then.
\<close>

datatype read_fn = Mbr_read

text \<open>
  Modelled from the spec: \<open>struct block_device\<close> is declared in \<open>block.h\<close>, which
  is not among the sources at hand; the record has the fields \<open>mbr.c\<close> reads and
  writes, \<open>'r\<close> being the type of the entry \<open>read\<close>.  A \<open>struct fs *\<close> is only
  tested against the null pointer and handed on, so the file system is a type parameter
  \<open>'fs\<close> and \<open>None\<close> is the null pointer.
\<close>

record ('fs, 'r) block_device =
  driver_name :: string
  device_name :: name_buffer
  device_id :: "byte list"
  dev_id_len :: nat
  read :: 'r
  block_size :: nat
  fs :: "'fs option"

text \<open>
  \<open>struct mbr_block_dev\<close>.  The field \<open>parent\<close> is a pointer in the source; the
  record holds the device it points to, as it is when the record is looked at.
\<close>

record ('fs, 'w) mbr_block_dev =
  bd :: "('fs, read_fn) block_device"
  parent :: "('fs, 'w read_op) block_device"
  part_no :: int
  start_block :: "32 word"
  blocks :: "32 word"
  part_id :: byte

section \<open>Reading through a partition: \<open>mbr_read\<close>\<close>

definition mbr_read :: "('fs, 'w) mbr_block_dev \<Rightarrow> 'w read_op" where
  "mbr_read dev buf buf_size starting_block w =
     (if block_size (bd dev) \<noteq> block_size (parent dev) then ((- 1, buf), w)
      else read (parent dev) buf buf_size (starting_block + start_block dev) w)"

text \<open>The call \<open>dev->bd.read(dev, ...)\<close> on a partition device.\<close>

definition dev_read :: "('fs, 'w) mbr_block_dev \<Rightarrow> 'w read_op" where
  "dev_read dev = (case read (bd dev) of Mbr_read \<Rightarrow> mbr_read dev)"

section \<open>Scanning the partition table: \<open>read_mbr\<close>\<close>

text \<open>
  Modelled from the spec: \<open>read_word\<close> comes from \<open>util.h\<close>, which is not among the
  sources at hand.  The spec has the two 32-bit fields of an entry little-endian and
  unsigned, so \<open>read_word buf offset\<close> assembles the four bytes from \<open>offset\<close> on,
  lowest byte first.
\<close>

definition read_word :: "buffer \<Rightarrow> nat \<Rightarrow> 32 word" where
  "read_word buf offset =
     ucast (buf ! offset)
       OR push_bit 8 (ucast (buf ! (offset + 1)))
       OR push_bit 16 (ucast (buf ! (offset + 2)))
       OR push_bit 24 (ucast (buf ! (offset + 3)))"

text \<open>
  The functions \<open>read_mbr\<close> calls and does not define are parameters of the model:
  \<^item> \<open>block_read ext dev size block w\<close> is \<open>block_read(dev, buf, size, block)\<close> on a
    freshly allocated buffer: the \<open>int\<close> returned and the buffer afterwards;
  \<^item> \<open>fat_init ext d w\<close> and \<open>ext2_init ext d w\<close> are the two driver initialisers:
    the \<open>int\<close> returned (which \<open>read_mbr\<close> drops) and what they leave in
    \<open>d->bd.fs\<close>, which was null before the call;
  \<^item> \<open>vfs_register ext f w\<close> is \<open>vfs_register(f)\<close>, whose result is dropped too.
\<close>

record ('fs, 'w) externals =
  block_read :: "('fs, 'w read_op) block_device \<Rightarrow> nat \<Rightarrow> 32 word \<Rightarrow> 'w \<Rightarrow> (int \<times> buffer) \<times> 'w"
  fat_init :: "('fs, 'w) mbr_block_dev \<Rightarrow> 'w \<Rightarrow> (int \<times> 'fs option) \<times> 'w"
  ext2_init :: "('fs, 'w) mbr_block_dev \<Rightarrow> 'w \<Rightarrow> (int \<times> 'fs option) \<times> 'w"
  vfs_register :: "'fs \<Rightarrow> 'w \<Rightarrow> 'w"

text \<open>The calls of the scan to the drivers and to the registry, in the order made.\<close>

datatype ('fs, 'w) event =
    Fat_init "('fs, 'w) mbr_block_dev"
  | Ext2_init "('fs, 'w) mbr_block_dev"
  | Vfs_register 'fs

text \<open>
  Lines 114 to 133: the device of slot \<open>i\<close>.  The record is zeroed first, so \<open>fs\<close>
  is null.  The entry \<open>read\<close> is the pointer \<open>mbr_read\<close>.

  The buffer of the name (line 118) is asked of \<open>malloc\<close> with
  \<open>strlen(parent->device_name + 2)\<close> bytes: the length of the parent's name from its
  third character on, which is defined when the name has at least two characters.  The
  lines 119 to 122 store into it the parent's name, \<open>_\<close>, the character \<open>'0' + i\<close> and
  the terminating zero.
\<close>

definition make_partition ::
  "('fs, 'w read_op) block_device \<Rightarrow> buffer \<Rightarrow> nat \<Rightarrow> ('fs, 'w) mbr_block_dev" where
  "make_partition par block_0 i =
     (let p_offset = 0x1be + i * 0x10;
          name = stored (device_name par)
      in \<lparr> bd = \<lparr> driver_name = ''mbr'',
                    device_name =
                      \<lparr> allocated = (if length name < 2 then None else Some (length (drop 2 name))),
                        stored = name @ [CHR ''_'', char_of (of_char CHR ''0'' + i)] \<rparr>,
                    device_id = [of_nat i],
                    dev_id_len = 1,
                    read = Mbr_read,
                    block_size = 512,
                    fs = None \<rparr>,
           parent = par,
           part_no = int i,
           start_block = read_word block_0 (p_offset + 8),
           blocks = read_word block_0 (p_offset + 12),
           part_id = block_0 ! (p_offset + 4) \<rparr>)"

text \<open>
  Lines 143 to 162: the \<open>switch\<close> on the type code.  The result is the device with
  what the initialiser left in \<open>fs\<close>, the call made (if any) and the new world.
\<close>

definition bind_driver ::
  "('fs, 'w) externals \<Rightarrow> ('fs, 'w) mbr_block_dev \<Rightarrow> 'w
     \<Rightarrow> (('fs, 'w) mbr_block_dev \<times> ('fs, 'w) event list) \<times> 'w" where
  "bind_driver ext d w =
     (let c = part_id d in
      if c = 1 \<or> c = 4 \<or> c = 6 \<or> c = 0xb \<or> c = 0xc \<or> c = 0xe \<or> c = 0x11 \<or> c = 0x14
           \<or> c = 0x1b \<or> c = 0x1c \<or> c = 0x1e
      then (case fat_init ext d w of
              ((r, f), w') \<Rightarrow> ((d \<lparr> bd := (bd d) \<lparr> fs := f \<rparr> \<rparr>, [Fat_init d]), w'))
      else if c = 0x83
      then (case ext2_init ext d w of
              ((r, f), w') \<Rightarrow> ((d \<lparr> bd := (bd d) \<lparr> fs := f \<rparr> \<rparr>, [Ext2_init d]), w'))
      else ((d, []), w))"

text \<open>
  The state of the loop: the array \<open>parts\<close> of four device pointers (\<open>None\<close> for a
  slot not yet written), the counter \<open>cur_p\<close>, the calls made so far and the world.
\<close>

record ('fs, 'w) loop_state =
  parts :: "('fs, 'w) mbr_block_dev option list"
  cur_p :: int
  events :: "('fs, 'w) event list"
  world :: 'w

text \<open>
  Lines 110 to 166: the body of the loop for slot \<open>i\<close>.  \<open>parts[cur_p]\<close> points to
  the device, so it shows what the initialiser stored in \<open>fs\<close> afterwards.
\<close>

definition load_partition ::
  "('fs, 'w) externals \<Rightarrow> ('fs, 'w read_op) block_device \<Rightarrow> buffer
     \<Rightarrow> ('fs, 'w) loop_state \<Rightarrow> nat \<Rightarrow> ('fs, 'w) loop_state" where
  "load_partition ext par block_0 st i =
     (let p_offset = 0x1be + i * 0x10 in
      if block_0 ! (p_offset + 4) \<noteq> 0x00 then
        (case bind_driver ext (make_partition par block_0 i) (world st) of
           ((d, calls), w') \<Rightarrow>
             (case fs (bd d) of
                Some f \<Rightarrow>
                  \<lparr> parts = (parts st) [nat (cur_p st) := Some d], cur_p = cur_p st + 1,
                    events = events st @ calls @ [Vfs_register f],
                    world = vfs_register ext f w' \<rparr>
              | None \<Rightarrow>
                  \<lparr> parts = (parts st) [nat (cur_p st) := Some d], cur_p = cur_p st + 1,
                    events = events st @ calls, world = w' \<rparr>))
      else st)"

text \<open>
  The caller's two variables behind the pointers \<open>partitions\<close> and \<open>part_count\<close>.
\<close>

record ('fs, 'w) out_params =
  partitions :: "('fs, 'w) mbr_block_dev option list"
  part_count :: int

text \<open>
  \<open>read_mbr\<close>.  The parent pointer may be null (\<open>None\<close>).  The result is the \<open>int\<close>
  returned, the caller's two variables, the calls made and the world afterwards.
\<close>

definition read_mbr ::
  "('fs, 'w) externals \<Rightarrow> ('fs, 'w read_op) block_device option \<Rightarrow> ('fs, 'w) out_params \<Rightarrow> 'w
     \<Rightarrow> int \<times> ('fs, 'w) out_params \<times> ('fs, 'w) event list \<times> 'w" where
  "read_mbr ext parent_ptr out w =
     (case parent_ptr of
        None \<Rightarrow> (- 1, out, [], w)
      | Some par \<Rightarrow>
          (case block_read ext par 512 0 w of
             ((ret, block_0), w1) \<Rightarrow>
               if ret < 0 then (ret, out, [], w1)
               else if ret \<noteq> 512 then (- 1, out, [], w1)
               else if block_0 ! 0x1fe \<noteq> 0x55 \<or> block_0 ! 0x1ff \<noteq> 0xaa
               then (- 1, out, [], w1)
               else
                 (let st = foldl (load_partition ext par block_0)
                             \<lparr> parts = replicate 4 None, cur_p = 0, events = [], world = w1 \<rparr>
                             [0 ..< 4]
                  in (0, \<lparr> partitions = parts st, part_count = cur_p st \<rparr>, events st,
                      world st))))"

section \<open>Notions used to state the properties\<close>

text \<open>The device as it was before a driver was bound to it: \<open>fs\<close> null again.\<close>

definition unbound :: "('fs, 'w) mbr_block_dev \<Rightarrow> ('fs, 'w) mbr_block_dev" where
  "unbound d = d \<lparr> bd := (bd d) \<lparr> fs := None \<rparr> \<rparr>"

text \<open>The file systems handed to \<open>vfs_register\<close>, in the order of the calls.\<close>

fun registered :: "('fs, 'w) event list \<Rightarrow> 'fs list" where
  "registered [] = []"
| "registered (Vfs_register f # es) = f # registered es"
| "registered (e # es) = registered es"

text \<open>The calls to the driver initialisers, in the order made.\<close>

fun init_calls :: "('fs, 'w) event list \<Rightarrow> ('fs, 'w) event list" where
  "init_calls [] = []"
| "init_calls (Vfs_register f # es) = init_calls es"
| "init_calls (e # es) = e # init_calls es"

text \<open>The file systems bound to the devices of a list, in the order of the list.\<close>

fun bound_fs :: "('fs, 'w) mbr_block_dev list \<Rightarrow> 'fs list" where
  "bound_fs [] = []"
| "bound_fs (d # ds) = (case fs (bd d) of Some f \<Rightarrow> f # bound_fs ds | None \<Rightarrow> bound_fs ds)"

text \<open>The slots below \<open>n\<close> whose type code is not zero, in ascending order.\<close>

definition active_slots :: "buffer \<Rightarrow> nat \<Rightarrow> nat list" where
  "active_slots block_0 n = filter (\<lambda>i. block_0 ! (0x1be + i * 0x10 + 4) \<noteq> 0) [0 ..< n]"

text \<open>
  The unsigned number that four bytes from \<open>offset\<close> on spell in little-endian order,
  in the words of the spec; \<open>read_word\<close> is compared with it.
\<close>

definition le32_value :: "buffer \<Rightarrow> nat \<Rightarrow> nat" where
  "le32_value buf offset =
     unat (buf ! offset) + 2 ^ 8 * unat (buf ! (offset + 1))
       + 2 ^ 16 * unat (buf ! (offset + 2)) + 2 ^ 24 * unat (buf ! (offset + 3))"

text \<open>
  The fixed table of the spec from type codes to drivers, and what it asks for on a
  device: the call to the driver's initialiser, and the file system that call leaves.
  The \<open>switch\<close> of the source is compared with it.
\<close>

datatype driver = Fat_family | Ext2_family | No_driver

definition binding_table :: "byte \<Rightarrow> driver" where
  "binding_table c =
     (if c \<in> {0x01, 0x04, 0x06, 0x0B, 0x0C, 0x0E, 0x11, 0x14, 0x1B, 0x1C, 0x1E} then Fat_family
      else if c = 0x83 then Ext2_family
      else No_driver)"

definition table_call :: "('fs, 'w) mbr_block_dev \<Rightarrow> ('fs, 'w) event list" where
  "table_call d =
     (case binding_table (part_id d) of
        Fat_family \<Rightarrow> [Fat_init d]
      | Ext2_family \<Rightarrow> [Ext2_init d]
      | No_driver \<Rightarrow> [])"

definition table_fs :: "('fs, 'w) externals \<Rightarrow> ('fs, 'w) mbr_block_dev \<Rightarrow> 'w \<Rightarrow> 'fs option" where
  "table_fs ext d w =
     (case binding_table (part_id d) of
        Fat_family \<Rightarrow> snd (fst (fat_init ext d w))
      | Ext2_family \<Rightarrow> snd (fst (ext2_init ext d w))
      | No_driver \<Rightarrow> None)"

text \<open>The device with the file system \<open>f\<close> (or none) in \<open>fs\<close>.\<close>

definition with_fs :: "('fs, 'w) mbr_block_dev \<Rightarrow> 'fs option \<Rightarrow> ('fs, 'w) mbr_block_dev" where
  "with_fs d f = d \<lparr> bd := (bd d) \<lparr> fs := f \<rparr> \<rparr>"

text \<open>The world after the call the table asks for on a device.\<close>

definition table_world :: "('fs, 'w) externals \<Rightarrow> ('fs, 'w) mbr_block_dev \<Rightarrow> 'w \<Rightarrow> 'w" where
  "table_world ext d w =
     (case binding_table (part_id d) of
        Fat_family \<Rightarrow> snd (fat_init ext d w)
      | Ext2_family \<Rightarrow> snd (ext2_init ext d w)
      | No_driver \<Rightarrow> w)"

text \<open>
  What happens to a file system an initialiser leaves: it is handed to the registrar;
  when none is left, nothing happens.  The result is the call made and the world
  afterwards.
\<close>

definition registration ::
  "('fs, 'w) externals \<Rightarrow> 'fs option \<Rightarrow> 'w \<Rightarrow> ('fs, 'w) event list \<times> 'w" where
  "registration ext f w =
     (case f of Some x \<Rightarrow> ([Vfs_register x], vfs_register ext x w) | None \<Rightarrow> ([], w))"

text \<open>
  The scan in the words of the spec, over the active slots in ascending order: for each
  the device is built, the driver the table names for its type code is run on it in
  the world as it is then and leaves a file system or none, a file system left is
  handed to the registrar, and the device goes to the result whatever the outcome.  The
  result is the devices, the calls made and the world afterwards.  \<open>read_mbr\<close> is
  compared with it.
\<close>

fun spec_scan ::
  "('fs, 'w) externals \<Rightarrow> ('fs, 'w read_op) block_device \<Rightarrow> buffer \<Rightarrow> nat list \<Rightarrow> 'w
     \<Rightarrow> ('fs, 'w) mbr_block_dev list \<times> ('fs, 'w) event list \<times> 'w" where
  "spec_scan ext par block_0 [] w = ([], [], w)"
| "spec_scan ext par block_0 (i # slots) w =
     (let d = make_partition par block_0 i;
          f = table_fs ext d w;
          w1 = table_world ext d w;
          (regs, w2) = registration ext f w1;
          (ds, es, w3) = spec_scan ext par block_0 slots w2
      in (with_fs d f # ds, table_call d @ regs @ es, w3))"

section \<open>A concrete disk\<close>

text \<open>
  A sector with a valid signature whose slot 0 holds an entry of type \<open>0x83\<close> starting
  at block 2048 with 204800 blocks, the other three slots being empty; a sector of
  zeros; and a sector with entries of types \<open>0x0B\<close>, \<open>0x83\<close> and \<open>0x07\<close> in the slots
  0, 2 and 3.
\<close>

definition example_sector :: buffer where
  "example_sector =
     replicate 446 0
       @ [0, 0, 0, 0, 0x83, 0, 0, 0, 0x00, 0x08, 0, 0, 0x00, 0x20, 0x03, 0]
       @ replicate 48 0 @ [0x55, 0xaa]"

definition blank_sector :: buffer where
  "blank_sector = replicate 512 0"

definition mixed_sector :: buffer where
  "mixed_sector =
     replicate 446 0
       @ [0, 0, 0, 0, 0x0b, 0, 0, 0, 0x3f, 0, 0, 0, 0x00, 0x10, 0, 0]
       @ replicate 16 0
       @ [0, 0, 0, 0, 0x83, 0, 0, 0, 0x00, 0x20, 0, 0, 0x00, 0x00, 0x01, 0]
       @ [0, 0, 0, 0, 0x07, 0, 0, 0, 0x00, 0x20, 0x01, 0, 0x00, 0x00, 0x02, 0]
       @ [0x55, 0xaa]"

text \<open>
  A driver whose \<open>read\<close> returns the block number it was asked for and counts its
  calls in the world, and parents named \<open>sda\<close> with blocks of 512 and of 4096 bytes.
\<close>

definition example_read :: "nat read_op" where
  "example_read buf buf_size block w = ((int (unat block), buf), Suc w)"

definition example_parent :: "(string, nat read_op) block_device" where
  "example_parent =
     \<lparr> driver_name = ''emmc'', device_name = \<lparr> allocated = Some 4, stored = ''sda'' \<rparr>,
       device_id = [], dev_id_len = 0,
       read = example_read, block_size = 512, fs = None \<rparr>"

definition example_parent_4k :: "(string, nat read_op) block_device" where
  "example_parent_4k = example_parent \<lparr> block_size := 4096 \<rparr>"

text \<open>
  The outside of \<open>read_mbr\<close>: \<open>block_read\<close> delivers the given \<open>int\<close> and sector;
  the FAT initialiser yields a file system, the ext2 initialiser fails.  Each call
  leaves its mark on the world, a number: \<open>block_read\<close> adds 1, the FAT initialiser
  10, the ext2 initialiser 100 and \<open>vfs_register\<close> 1000.
\<close>

definition example_ext :: "int \<Rightarrow> buffer \<Rightarrow> (string, nat) externals" where
  "example_ext ret sector =
     \<lparr> block_read = (\<lambda>dev size block w. ((ret, sector), Suc w)),
       fat_init = (\<lambda>d w. ((0, Some ''fat''), w + 10)),
       ext2_init = (\<lambda>d w. ((- 1, None), w + 100)),
       vfs_register = (\<lambda>f w. w + 1000) \<rparr>"

definition example_out :: "(string, nat) out_params" where
  "example_out = \<lparr> partitions = [], part_count = 7 \<rparr>"

text \<open>A partition device whose start block is the largest 32-bit number.\<close>

definition example_last_dev :: "(string, nat) mbr_block_dev" where
  "example_last_dev = (make_partition example_parent example_sector 0) \<lparr> start_block := 0xFFFFFFFF \<rparr>"

section \<open>Auxiliary facts\<close>

lemma unat_plus_32: "unat ((a::32 word) + b) = (unat a + unat b) mod 2 ^ 32"
  by (simp add: unat_word_ariths)

lemma of_nat_plus_32: "(of_nat ((unat (a::32 word) + unat b) mod 2 ^ 32) :: 32 word) = a + b"
  unfolding unat_plus_32 [symmetric] by simp

lemma unat_plus_32_overflow:
  assumes "2 ^ 32 \<le> unat (a::32 word) + unat (b::32 word)"
  shows "unat (a + b) = unat a + unat b - 2 ^ 32"
proof -
  have "unat a < 2 ^ 32" "unat b < 2 ^ 32"
    using unsigned_less [of a] unsigned_less [of b] by simp_all
  then have "unat a + unat b - 2 ^ 32 < 2 ^ 32" by linarith
  then have "(unat a + unat b) mod 2 ^ 32 = unat a + unat b - 2 ^ 32"
    using assms by (metis le_mod_geq mod_less)
  then show ?thesis by (simp add: unat_plus_32)
qed

lemma unat_plus_32_lower:
  assumes "2 ^ 32 \<le> unat (a::32 word) + unat (b::32 word)"
  shows "unat (a + b) < unat a"
proof -
  have "unat b < 2 ^ 32" using unsigned_less [of b] by simp
  with assms unat_plus_32_overflow [OF assms] show ?thesis by linarith
qed

lemma example_sector_signature: "example_sector ! 0x1fe = 0x55" "example_sector ! 0x1ff = 0xaa"
  by (simp_all add: example_sector_def nth_append)

lemma example_sector_start: "read_word example_sector (0x1be + 0 * 0x10 + 8) = 2048"
  by (simp add: example_sector_def nth_append read_word_def)

subsection \<open>The little-endian word\<close>

lemma byte_bit: "bit (ucast (b::8 word) :: 32 word) n \<Longrightarrow> n < 8"
  using bit_imp_le_length [of b n] by (simp add: bit_ucast_iff)

lemma unat_byte_less: "unat (b::8 word) < 256"
  using unsigned_less [of b] by simp

lemma unat_ucast_byte: "unat (ucast (b::8 word) :: 32 word) = unat b"
proof -
  have "unat b < 2 ^ 32" using unat_byte_less [of b] by simp
  then show ?thesis by (simp add: unsigned_ucast_eq take_bit_nat_eq_self)
qed

lemma unat_shift_byte:
  "n \<le> 24 \<Longrightarrow> unat (push_bit n (ucast (b::8 word) :: 32 word)) = 2 ^ n * unat b"
proof -
  assume n: "n \<le> 24"
  have "unat b * 2 ^ n < 2 ^ 8 * 2 ^ n" using unat_byte_less [of b] by simp
  also have "\<dots> = (2::nat) ^ (8 + n)" by (simp add: power_add)
  also have "\<dots> \<le> 2 ^ 32" using n by (intro power_increasing) simp_all
  finally have "unat b * 2 ^ n < 2 ^ 32" .
  then have "take_bit 32 (push_bit n (unat b)) = push_bit n (unat b)"
    by (simp add: take_bit_nat_eq_self push_bit_eq_mult)
  then show ?thesis
    unfolding unsigned_push_bit_eq unat_ucast_byte by (simp add: push_bit_eq_mult mult.commute)
qed

lemma shifted_bit: "bit (push_bit m (x :: 32 word)) n \<Longrightarrow> m \<le> n"
  by (simp add: bit_push_bit_iff)

lemma shifted_byte_bit: "bit (push_bit m (ucast (b::8 word) :: 32 word)) n \<Longrightarrow> n < m + 8"
  using byte_bit [of b "n - m"] by (auto simp add: bit_push_bit_iff)

lemma read_word_sum:
  "read_word buf k =
     ucast (buf ! k) + (push_bit 8 (ucast (buf ! (k + 1)))
       + (push_bit 16 (ucast (buf ! (k + 2))) + push_bit 24 (ucast (buf ! (k + 3)))))"
proof -
  let ?a = "ucast (buf ! k) :: 32 word"
  let ?b = "push_bit 8 (ucast (buf ! (k + 1))) :: 32 word"
  let ?c = "push_bit 16 (ucast (buf ! (k + 2))) :: 32 word"
  let ?d = "push_bit 24 (ucast (buf ! (k + 3))) :: 32 word"
  have cd: "?c + ?d = ?c OR ?d"
  proof (rule disjunctive_add)
    fix n show "\<not> bit ?c n \<or> \<not> bit ?d n"
      using shifted_byte_bit [of 16 "buf ! (k + 2)" n] shifted_bit [of 24 _ n] by fastforce
  qed
  have bcd: "?b + (?c OR ?d) = ?b OR (?c OR ?d)"
  proof (rule disjunctive_add)
    fix n show "\<not> bit ?b n \<or> \<not> bit (?c OR ?d) n"
      using shifted_byte_bit [of 8 "buf ! (k + 1)" n] shifted_bit [of 16 _ n] shifted_bit [of 24 _ n]
      by (fastforce simp add: bit_or_iff)
  qed
  have abcd: "?a + (?b OR (?c OR ?d)) = ?a OR (?b OR (?c OR ?d))"
  proof (rule disjunctive_add)
    fix n show "\<not> bit ?a n \<or> \<not> bit (?b OR (?c OR ?d)) n"
      using byte_bit [of "buf ! k" n] shifted_bit [of 8 _ n] shifted_bit [of 16 _ n] shifted_bit [of 24 _ n]
      by (fastforce simp add: bit_or_iff)
  qed
  show ?thesis
    unfolding read_word_def cd bcd abcd by (simp add: or.assoc)
qed

lemma unat_read_word: "unat (read_word buf k) = le32_value buf k"
proof -
  have b: "unat (buf ! k) < 256" "unat (buf ! (k + 1)) < 256" "unat (buf ! (k + 2)) < 256"
    "unat (buf ! (k + 3)) < 256"
    by (rule unat_byte_less)+
  then have "le32_value buf k < 2 ^ 32"
    by (simp add: le32_value_def)
  then have "le32_value buf k mod 2 ^ 32 = le32_value buf k" by simp
  moreover have "unat (read_word buf k) = le32_value buf k mod 2 ^ 32"
    unfolding read_word_sum le32_value_def
    by (simp only: unat_plus_32 unat_ucast_byte unat_shift_byte mod_add_right_eq mod_add_left_eq add.assoc)
  ultimately show ?thesis by simp
qed

subsection \<open>The loop over the four slots\<close>

lemma registered_append: "registered (xs @ ys) = registered xs @ registered ys"
  by (induction xs rule: registered.induct) simp_all

lemma init_calls_append: "init_calls (xs @ ys) = init_calls xs @ init_calls ys"
  by (induction xs rule: init_calls.induct) simp_all

lemma bound_fs_append: "bound_fs (xs @ ys) = bound_fs xs @ bound_fs ys"
  by (induction xs) (simp_all split: option.splits)

lemma make_partition_fs: "fs (bd (make_partition par block_0 i)) = None"
  by (simp add: make_partition_def Let_def)

lemma make_partition_read:
  "dev_read (make_partition par block_0 i) = mbr_read (make_partition par block_0 i)"
  by (simp add: dev_read_def make_partition_def Let_def)

text \<open>
  The name of a device as built never lies within its buffer: the bytes stored are five
  more than the bytes allocated.
\<close>

lemma make_partition_name_size:
  assumes "allocated (device_name (bd (make_partition par block_0 i))) = Some n"
  shows "length (stored (device_name (bd (make_partition par block_0 i)))) + 1 = n + 5"
  using assms by (simp add: make_partition_def Let_def split: if_splits)

lemma make_partition_name_overflows:
  "\<not> fits (device_name (bd (make_partition par block_0 i)))"
  by (auto simp add: fits_def make_partition_def Let_def)

lemma bind_driver_result:
  assumes "bind_driver ext d w = ((d', calls), w')" and "fs (bd d) = None"
  shows "unbound d' = d" and "calls = table_call d" and "fs (bd d') = table_fs ext d w"
    and "part_id d' = part_id d"
  using assms
  by (auto simp: bind_driver_def unbound_def table_call_def table_fs_def binding_table_def Let_def
      split: if_splits prod.splits)

lemma table_call_unregistered: "registered (table_call d) = []"
  by (simp add: table_call_def split: driver.splits)

lemma table_call_init: "init_calls (table_call d) = table_call d"
  by (simp add: table_call_def split: driver.splits)

lemma parts_store:
  assumes "length devs < 4"
  shows "(map Some devs @ replicate (4 - length devs) None) [nat (int (length devs)) := Some d]
           = map Some (devs @ [d]) @ replicate (4 - length (devs @ [d])) None"
proof -
  from assms have "4 - length devs = Suc (4 - length (devs @ [d]))" by simp
  then have "replicate (4 - length devs) None
               = (None :: 'a option) # replicate (4 - length (devs @ [d])) None"
    by (simp only: replicate_Suc)
  then show ?thesis by (simp add: list_update_append)
qed

lemma load_partition_inactive:
  "block_0 ! (0x1be + i * 0x10 + 4) = 0 \<Longrightarrow> load_partition ext par block_0 st i = st"
  by (simp add: load_partition_def Let_def)

lemma load_partition_active:
  assumes "block_0 ! (0x1be + i * 0x10 + 4) \<noteq> 0"
  shows "\<exists>d. unbound d = make_partition par block_0 i
           \<and> fs (bd d) = table_fs ext (make_partition par block_0 i) (world st)
           \<and> parts (load_partition ext par block_0 st i) = (parts st) [nat (cur_p st) := Some d]
           \<and> cur_p (load_partition ext par block_0 st i) = cur_p st + 1
           \<and> events (load_partition ext par block_0 st i)
               = events st @ table_call (make_partition par block_0 i)
                   @ map Vfs_register (bound_fs [d])"
proof -
  obtain d calls w' where
    b: "bind_driver ext (make_partition par block_0 i) (world st) = ((d, calls), w')"
    by (metis surj_pair)
  note r = bind_driver_result [OF b make_partition_fs]
  show ?thesis
    using assms b r(1-3)
    by (intro exI [of _ d]) (simp add: load_partition_def Let_def split: option.splits)
qed

lemma registered_map_register: "registered (map Vfs_register xs) = xs"
  by (induction xs) simp_all

lemma init_calls_map_register: "init_calls (map Vfs_register xs) = []"
  by (induction xs) simp_all

lemma length_active_slots: "length (active_slots block_0 n) \<le> n"
proof -
  have "length (active_slots block_0 n) \<le> length [0 ..< n]"
    unfolding active_slots_def by (rule length_filter_le)
  then show ?thesis by simp
qed

lemma scan_invariant:
  fixes ext :: "('fs, 'w) externals"
  defines "scan \<equiv> \<lambda>par block_0 w n. foldl (load_partition ext par block_0)
             \<lparr> parts = replicate 4 None, cur_p = 0, events = [], world = w \<rparr> [0 ..< n]"
  assumes "n \<le> 4"
  shows "\<exists>devs. parts (scan par block_0 w n) = map Some devs @ replicate (4 - length devs) None
         \<and> cur_p (scan par block_0 w n) = int (length devs)
         \<and> map unbound devs = map (make_partition par block_0) (active_slots block_0 n)
         \<and> registered (events (scan par block_0 w n)) = bound_fs devs
         \<and> init_calls (events (scan par block_0 w n))
             = concat (map (\<lambda>i. table_call (make_partition par block_0 i)) (active_slots block_0 n))
         \<and> (\<forall>d \<in> set devs. \<exists>w0. fs (bd d) = table_fs ext (unbound d) w0)"
  using assms(2)
proof (induction n)
  case 0
  show ?case by (intro exI [of _ "[]"]) (simp add: active_slots_def scan_def)
next
  case (Suc n)
  let ?st = "scan par block_0 w n"
  let ?st' = "scan par block_0 w (Suc n)"
  from Suc obtain devs where
    p: "parts ?st = map Some devs @ replicate (4 - length devs) None"
    and c: "cur_p ?st = int (length devs)"
    and u: "map unbound devs = map (make_partition par block_0) (active_slots block_0 n)"
    and r: "registered (events ?st) = bound_fs devs"
    and i: "init_calls (events ?st)
              = concat (map (\<lambda>i. table_call (make_partition par block_0 i)) (active_slots block_0 n))"
    and f: "\<forall>d \<in> set devs. \<exists>w0. fs (bd d) = table_fs ext (unbound d) w0"
    by auto
  have step: "?st' = load_partition ext par block_0 ?st n"
    by (simp add: scan_def)
  show ?case
  proof (cases "block_0 ! (0x1be + n * 0x10 + 4) = 0")
    case True
    then have "active_slots block_0 (Suc n) = active_slots block_0 n"
      by (simp add: active_slots_def)
    with True p c u r i f show ?thesis
      unfolding step by (intro exI [of _ devs]) (simp add: load_partition_inactive)
  next
    case False
    then have a: "active_slots block_0 (Suc n) = active_slots block_0 n @ [n]"
      by (simp add: active_slots_def)
    from load_partition_active [OF False, of par ext ?st] obtain d where
      d: "unbound d = make_partition par block_0 n"
      and fd: "fs (bd d) = table_fs ext (make_partition par block_0 n) (world ?st)"
      and p': "parts ?st' = (parts ?st) [nat (cur_p ?st) := Some d]"
      and c': "cur_p ?st' = cur_p ?st + 1"
      and e': "events ?st' = events ?st @ table_call (make_partition par block_0 n)
                 @ map Vfs_register (bound_fs [d])"
      unfolding step by blast
    have "length devs = length (active_slots block_0 n)"
      using u by (metis length_map)
    with length_active_slots [of block_0 n] Suc.prems have k: "length devs < 4" by simp
    have 1: "parts ?st' = map Some (devs @ [d]) @ replicate (4 - length (devs @ [d])) None"
      unfolding p' p c using parts_store [OF k] by simp
    have 2: "cur_p ?st' = int (length (devs @ [d]))"
      unfolding c' c by simp
    have 3: "map unbound (devs @ [d])
               = map (make_partition par block_0) (active_slots block_0 (Suc n))"
      using u d a by simp
    have 4: "registered (events ?st') = bound_fs (devs @ [d])"
      unfolding e' registered_append r table_call_unregistered registered_map_register
      by (simp only: bound_fs_append append_Nil)
    have 5: "init_calls (events ?st')
               = concat (map (\<lambda>i. table_call (make_partition par block_0 i))
                   (active_slots block_0 (Suc n)))"
      unfolding e' init_calls_append i table_call_init init_calls_map_register a by simp
    have 6: "\<forall>x \<in> set (devs @ [d]). \<exists>w0. fs (bd x) = table_fs ext (unbound x) w0"
      using f fd d by auto
    from 1 2 3 4 5 6 show ?thesis by blast
  qed
qed

lemma read_mbr_valid:
  assumes "block_read ext par 512 0 w = ((512, block_0), w1)"
    and "block_0 ! 0x1fe = 0x55" and "block_0 ! 0x1ff = 0xaa"
  shows "read_mbr ext (Some par) out w =
           (let st = foldl (load_partition ext par block_0)
                       \<lparr> parts = replicate 4 None, cur_p = 0, events = [], world = w1 \<rparr> [0 ..< 4]
            in (0, \<lparr> partitions = parts st, part_count = cur_p st \<rparr>, events st, world st))"
  using assms by (simp add: read_mbr_def)

lemma scan_result:
  assumes "block_read ext par 512 0 w = ((512, block_0), w1)"
    and "block_0 ! 0x1fe = 0x55" and "block_0 ! 0x1ff = 0xaa"
    and "read_mbr ext (Some par) out w = (ret, out', evs, w')"
  shows "ret = 0" 
    and "\<exists>devs. partitions out' = map Some devs @ replicate (4 - length devs) None
         \<and> part_count out' = int (length devs)
         \<and> map unbound devs = map (make_partition par block_0) (active_slots block_0 4)
         \<and> registered evs = bound_fs devs
         \<and> init_calls evs
             = concat (map (\<lambda>i. table_call (make_partition par block_0 i)) (active_slots block_0 4))
         \<and> (\<forall>d \<in> set devs. \<exists>w0. fs (bd d) = table_fs ext (unbound d) w0)"
proof -
  let ?st = "foldl (load_partition ext par block_0)
               \<lparr> parts = replicate 4 None, cur_p = 0, events = [], world = w1 \<rparr> [0 ..< 4]"
  have e: "(ret, out', evs, w') = (0, \<lparr> partitions = parts ?st, part_count = cur_p ?st \<rparr>, events ?st, world ?st)"
    using read_mbr_valid [OF assms(1-3), of out] assms(4) by (simp add: Let_def)
  then show "ret = 0" by simp
  from e have o: "partitions out' = parts ?st" "part_count out' = cur_p ?st" "evs = events ?st"
    by auto
  show "\<exists>devs. partitions out' = map Some devs @ replicate (4 - length devs) None
         \<and> part_count out' = int (length devs)
         \<and> map unbound devs = map (make_partition par block_0) (active_slots block_0 4)
         \<and> registered evs = bound_fs devs
         \<and> init_calls evs
             = concat (map (\<lambda>i. table_call (make_partition par block_0 i)) (active_slots block_0 4))
         \<and> (\<forall>d \<in> set devs. \<exists>w0. fs (bd d) = table_fs ext (unbound d) w0)"
    unfolding o using scan_invariant [of 4 ext par block_0 w1] by simp
qed

subsection \<open>The concrete disk\<close>

lemma blank_sector_signature: "blank_sector ! 0x1fe = 0"
  by (simp add: blank_sector_def)

lemma example_block_read:
  "block_read (example_ext r b) par 512 0 w = ((r, b), Suc w)"
  by (simp add: example_ext_def)

lemma mixed_sector_length: "length mixed_sector = 512"
  by (simp add: mixed_sector_def)

lemma mixed_sector_signature: "mixed_sector ! 0x1fe = 0x55" "mixed_sector ! 0x1ff = 0xaa"
  by (simp_all add: mixed_sector_def nth_append)

lemma upt_4: "[0 ..< 4] = [0, 1, 2, 3]"
  by (simp add: upt_rec)

lemma replicate_4: "replicate 4 x = [x, x, x, x]"
  by (simp add: eval_nat_numeral)

lemma mixed_sector_active: "active_slots mixed_sector 4 = [0, 2, 3]"
  by (simp add: active_slots_def upt_4 mixed_sector_def nth_append)

lemma example_sector_active: "active_slots example_sector 4 = [0]"
  by (simp add: active_slots_def upt_4 example_sector_def nth_append)

lemma mixed_sector_entries:
  "mixed_sector ! (0x1BE + 16 * 0 + 4) = 0x0b" "mixed_sector ! (0x1BE + 16 * 2 + 4) = 0x83"
  "mixed_sector ! (0x1BE + 16 * 3 + 4) = 0x07"
  "le32_value mixed_sector (0x1BE + 16 * 0 + 8) = 63"
  "le32_value mixed_sector (0x1BE + 16 * 0 + 12) = 4096"
  "le32_value mixed_sector (0x1BE + 16 * 2 + 8) = 8192"
  "le32_value mixed_sector (0x1BE + 16 * 2 + 12) = 65536"
  "le32_value mixed_sector (0x1BE + 16 * 3 + 8) = 73728"
  "le32_value mixed_sector (0x1BE + 16 * 3 + 12) = 131072"
  by (simp_all add: mixed_sector_def nth_append le32_value_def)

subsection \<open>The fields of the devices of a scan\<close>

text \<open>
  A field that binding a driver leaves alone is, on the devices of a scan, the field of
  the devices as built.
\<close>

lemma active_slots_filter:
  "filter (\<lambda>i. block_0 ! (0x1BE + 16 * i + 4) \<noteq> 0) [0 ..< n] = active_slots block_0 n"
  by (simp add: active_slots_def mult.commute)

lemma unbound_fields:
  "part_no (unbound d) = part_no d" "part_id (unbound d) = part_id d"
  "start_block (unbound d) = start_block d" "blocks (unbound d) = blocks d"
  "parent (unbound d) = parent d"
  "device_name (bd (unbound d)) = device_name (bd d)"
  "device_id (bd (unbound d)) = device_id (bd d)"
  "dev_id_len (bd (unbound d)) = dev_id_len (bd d)"
  "block_size (bd (unbound d)) = block_size (bd d)"
  "driver_name (bd (unbound d)) = driver_name (bd d)"
  by (simp_all add: unbound_def)

lemma make_partition_fields:
  "part_no (make_partition par block_0 i) = int i"
  "part_id (make_partition par block_0 i) = block_0 ! (0x1be + i * 0x10 + 4)"
  "start_block (make_partition par block_0 i) = read_word block_0 (0x1be + i * 0x10 + 8)"
  "blocks (make_partition par block_0 i) = read_word block_0 (0x1be + i * 0x10 + 12)"
  "parent (make_partition par block_0 i) = par"
  "stored (device_name (bd (make_partition par block_0 i)))
     = stored (device_name par) @ [CHR ''_'', char_of (of_char CHR ''0'' + i)]"
  "device_id (bd (make_partition par block_0 i)) = [of_nat i]"
  "dev_id_len (bd (make_partition par block_0 i)) = 1"
  "block_size (bd (make_partition par block_0 i)) = 512"
  "driver_name (bd (make_partition par block_0 i)) = ''mbr''"
  by (simp_all add: make_partition_def Let_def)

lemma unbound_name: "device_name (bd (unbound d)) = device_name (bd d)"
  by (simp add: unbound_def)

lemma make_partition_name:
  "device_name (bd (make_partition par block_0 i))
     = \<lparr> allocated = (if length (stored (device_name par)) < 2 then None
                       else Some (length (drop 2 (stored (device_name par))))),
         stored = stored (device_name par) @ [CHR ''_'', char_of (of_char CHR ''0'' + i)] \<rparr>"
  by (simp add: make_partition_def Let_def)

lemma map_field:
  assumes "map unbound devs = map mk slots" and "\<And>d. g (unbound d) = g d"
  shows "map g devs = map (\<lambda>i. g (mk i)) slots"
proof -
  have "map g devs = map g (map unbound devs)" by (simp add: assms(2))
  also have "\<dots> = map g (map mk slots)" by (simp only: assms(1))
  finally show ?thesis by simp
qed

lemma field_of_device:
  assumes "map unbound devs = map mk slots" and "\<And>d. g (unbound d) = g d" and "d \<in> set devs"
  shows "\<exists>i \<in> set slots. g d = g (mk i)"
proof -
  from assms(3) have "g d \<in> set (map g devs)" by simp
  then have "g d \<in> set (map (\<lambda>i. g (mk i)) slots)"
    using map_field [of devs mk slots g] assms(1,2) by simp
  then show ?thesis by auto
qed

subsection \<open>The ways out of \<open>read_mbr\<close>\<close>

lemma read_mbr_cases:
  "read_mbr ext None out w = (- 1, out, [], w)"
  "block_read ext par 512 0 w = ((r, b), w1) \<Longrightarrow> r < 0
     \<Longrightarrow> read_mbr ext (Some par) out w = (r, out, [], w1)"
  "block_read ext par 512 0 w = ((r, b), w1) \<Longrightarrow> 0 \<le> r \<Longrightarrow> r \<noteq> 512
     \<Longrightarrow> read_mbr ext (Some par) out w = (- 1, out, [], w1)"
  "block_read ext par 512 0 w = ((512, b), w1) \<Longrightarrow> b ! 0x1fe \<noteq> 0x55 \<or> b ! 0x1ff \<noteq> 0xaa
     \<Longrightarrow> read_mbr ext (Some par) out w = (- 1, out, [], w1)"
  by (simp_all add: read_mbr_def)

lemma read_mbr_sign:
  assumes "read_mbr ext parent_ptr out w = (ret, out', evs, w')"
  shows "ret = 0 \<or> ret < 0"
  using assms
  by (cases parent_ptr) (auto simp add: read_mbr_def Let_def split: prod.splits if_splits)

subsection \<open>The scan against the table\<close>

lemma with_fs_same: "fs (bd d) = f \<Longrightarrow> with_fs d f = d"
  by (simp add: with_fs_def)

lemma bind_driver_table:
  assumes "fs (bd d) = None"
  shows "bind_driver ext d w
           = ((with_fs d (table_fs ext d w), table_call d), table_world ext d w)"
proof (cases "binding_table (part_id d)")
  case Fat_family
  then have "part_id d \<in> {0x01, 0x04, 0x06, 0x0B, 0x0C, 0x0E, 0x11, 0x14, 0x1B, 0x1C, 0x1E}"
    by (simp add: binding_table_def split: if_splits)
  with Fat_family show ?thesis
    by (auto simp add: bind_driver_def table_fs_def table_call_def table_world_def with_fs_def
        Let_def split: prod.splits)
next
  case Ext2_family
  then have "part_id d = 0x83"
    by (simp add: binding_table_def split: if_splits)
  with Ext2_family show ?thesis
    by (auto simp add: bind_driver_def table_fs_def table_call_def table_world_def with_fs_def
        Let_def split: prod.splits)
next
  case No_driver
  then have "part_id d \<notin> {0x01, 0x04, 0x06, 0x0B, 0x0C, 0x0E, 0x11, 0x14, 0x1B, 0x1C, 0x1E, 0x83}"
    by (simp add: binding_table_def split: if_splits)
  with No_driver assms show ?thesis
    by (simp add: bind_driver_def table_fs_def table_call_def table_world_def with_fs_same
        Let_def)
qed

lemma load_partition_active_eq:
  fixes ext :: "('fs, 'w) externals"
  assumes "block_0 ! (0x1be + i * 0x10 + 4) \<noteq> 0"
  shows "load_partition ext par block_0 st i =
           (let d = make_partition par block_0 i;
                f = table_fs ext d (world st);
                wi = table_world ext d (world st)
            in \<lparr> parts = (parts st) [nat (cur_p st) := Some (with_fs d f)],
                 cur_p = cur_p st + 1,
                 events = events st @ table_call d @ fst (registration ext f wi),
                 world = snd (registration ext f wi) \<rparr>)"
proof -
  have "fs (bd (with_fs d f)) = f" for d :: "('fs, 'w) mbr_block_dev" and f
    by (simp add: with_fs_def)
  then show ?thesis
    using assms
    by (simp add: load_partition_def Let_def bind_driver_table [OF make_partition_fs]
        registration_def split: option.splits)
qed

lemma scan_refines:
  assumes "parts st = map Some pre @ replicate (4 - length pre) None"
    and "cur_p st = int (length pre)"
    and "length pre + length slots \<le> 4"
  shows "foldl (load_partition ext par block_0) st slots =
           (case spec_scan ext par block_0
                   (filter (\<lambda>i. block_0 ! (0x1be + i * 0x10 + 4) \<noteq> 0) slots) (world st) of
              (ds, es, wz) \<Rightarrow>
                \<lparr> parts = map Some (pre @ ds) @ replicate (4 - length (pre @ ds)) None,
                  cur_p = int (length (pre @ ds)),
                  events = events st @ es,
                  world = wz \<rparr>)"
  using assms
proof (induction slots arbitrary: st pre)
  case Nil
  then show ?case by simp
next
  case (Cons i slots)
  show ?case
  proof (cases "block_0 ! (0x1be + i * 0x10 + 4) = 0")
    case True
    then have "load_partition ext par block_0 st i = st"
      by (rule load_partition_inactive)
    moreover have "length pre + length slots \<le> 4" using Cons.prems(3) by simp
    ultimately show ?thesis
      using True Cons.IH [OF Cons.prems(1,2)] by simp
  next
    case False
    let ?d = "make_partition par block_0 i"
    let ?f = "table_fs ext ?d (world st)"
    let ?wi = "table_world ext ?d (world st)"
    let ?st = "load_partition ext par block_0 st i"
    have e: "?st = \<lparr> parts = (parts st) [nat (cur_p st) := Some (with_fs ?d ?f)],
                     cur_p = cur_p st + 1,
                     events = events st @ table_call ?d @ fst (registration ext ?f ?wi),
                     world = snd (registration ext ?f ?wi) \<rparr>"
      using load_partition_active_eq [OF False, of ext par st] by (simp add: Let_def)
    have k: "length pre < 4" using Cons.prems(3) by simp
    have p: "parts ?st = map Some (pre @ [with_fs ?d ?f])
               @ replicate (4 - length (pre @ [with_fs ?d ?f])) None"
      using parts_store [OF k, of "with_fs ?d ?f"] e Cons.prems(1,2) by simp
    have c: "cur_p ?st = int (length (pre @ [with_fs ?d ?f]))"
      using e Cons.prems(2) by simp
    have l: "length (pre @ [with_fs ?d ?f]) + length slots \<le> 4"
      using Cons.prems(3) by simp
    have ev: "events ?st = events st @ table_call ?d @ fst (registration ext ?f ?wi)"
      and wo: "world ?st = snd (registration ext ?f ?wi)"
      using e by simp_all
    show ?thesis
      using False Cons.IH [OF p c l]
      by (simp add: Let_def ev wo split: prod.splits)
  qed
qed

lemma read_mbr_spec_scan:
  fixes ext :: "('fs, 'w) externals"
  assumes "block_read ext par 512 0 w = ((512, block_0), w1)"
    and "block_0 ! 0x1fe = 0x55" and "block_0 ! 0x1ff = 0xaa"
  shows "read_mbr ext (Some par) out w =
           (case spec_scan ext par block_0 (active_slots block_0 4) w1 of
              (ds, es, wz) \<Rightarrow>
                (0, \<lparr> partitions = map Some ds @ replicate (4 - length ds) None,
                       part_count = int (length ds) \<rparr>, es, wz))"
proof -
  let ?init = "\<lparr> parts = replicate 4 None, cur_p = 0, events = [], world = w1 \<rparr>
                 :: ('fs, 'w) loop_state"
  have "foldl (load_partition ext par block_0) ?init [0 ..< 4] =
          (case spec_scan ext par block_0 (active_slots block_0 4) (world ?init) of
              (ds, es, wz) \<Rightarrow>
                \<lparr> parts = map Some ([] @ ds) @ replicate (4 - length ([] @ ds)) None,
                  cur_p = int (length ([] @ ds)),
                  events = events ?init @ es,
                  world = wz \<rparr>)"
    unfolding active_slots_def by (rule scan_refines) simp_all
  then show ?thesis
    using read_mbr_valid [OF assms, of out]
    by (simp add: Let_def split: prod.splits)
qed

lemma char_of_48: "char_of (48::nat) = CHR ''0''"
  by code_simp

lemma mixed_sector_drivers:
  "binding_table (part_id (make_partition par mixed_sector 0)) = Fat_family"
  "binding_table (part_id (make_partition par mixed_sector 2)) = Ext2_family"
  "binding_table (part_id (make_partition par mixed_sector 3)) = No_driver"
  using mixed_sector_entries(1-3)
  by (simp_all add: binding_table_def make_partition_fields)

lemma example_sector_driver:
  "binding_table (part_id (make_partition par example_sector 0)) = Ext2_family"
  by (simp add: binding_table_def make_partition_fields example_sector_def nth_append)

lemma mixed_sector_spec_scan:
  "spec_scan (example_ext r b) example_parent mixed_sector [0, 2, 3] 1 =
     ([with_fs (make_partition example_parent mixed_sector 0) (Some ''fat''),
       with_fs (make_partition example_parent mixed_sector 2) None,
       with_fs (make_partition example_parent mixed_sector 3) None],
      [Fat_init (make_partition example_parent mixed_sector 0), Vfs_register ''fat'',
       Ext2_init (make_partition example_parent mixed_sector 2)],
      1111)"
  by (simp add: Let_def table_fs_def table_call_def table_world_def registration_def
      mixed_sector_drivers example_ext_def)

lemma example_sector_spec_scan:
  "spec_scan (example_ext r b) example_parent example_sector [0] 1 =
     ([with_fs (make_partition example_parent example_sector 0) None],
      [Ext2_init (make_partition example_parent example_sector 0)],
      101)"
  by (simp add: Let_def table_fs_def table_call_def table_world_def registration_def
      example_sector_driver example_ext_def)

section \<open>Reading through a partition\<close>

text \<open>
  Claim C4.  When the block size of a partition device equals that of its parent, a read
  of the partition at \<open>starting_block\<close> is the parent's read at
  \<open>starting_block + start_block\<close>: the same value returned, the same buffer afterwards,
  the same effect on the world.  For a device built by the scan, \<open>start_block\<close> is the
  word decoded at offset 8 of its table entry.
\<close>

theorem mbr_read_delegates:
  assumes "block_size (bd dev) = block_size (parent dev)"
  shows "mbr_read dev buf buf_size starting_block w =
           read (parent dev) buf buf_size (starting_block + start_block dev) w
         \<and> start_block (make_partition par block_0 i)
             = read_word block_0 (0x1be + i * 0x10 + 8)"
  using assms by (simp add: mbr_read_def make_partition_def Let_def)

theorem mbr_read_delegates_witness:
  "block_size (bd (make_partition example_parent example_sector 0))
     = block_size (parent (make_partition example_parent example_sector 0))
   \<and> mbr_read (make_partition example_parent example_sector 0) [1, 2] 512 5 (0::nat)
       = ((2053, [1, 2]), 1)"
proof -
  let ?d = "make_partition example_parent example_sector 0"
  have h: "block_size (bd ?d) = block_size (parent ?d)"
    by (simp add: make_partition_def Let_def example_parent_def)
  have p: "parent ?d = example_parent"
    by (simp add: make_partition_def Let_def)
  have "mbr_read ?d [1, 2] 512 5 (0::nat)
          = read (parent ?d) [1, 2] 512 (5 + start_block ?d) 0
        \<and> start_block ?d = read_word example_sector (0x1be + 0 * 0x10 + 8)"
    by (rule mbr_read_delegates [OF h])
  then have "mbr_read ?d [1, 2] 512 5 (0::nat) = read example_parent [1, 2] 512 (5 + 2048) 0"
    unfolding p example_sector_start by simp
  then have "mbr_read ?d [1, 2] 512 5 (0::nat) = ((2053, [1, 2]), 1)"
    by (simp add: example_parent_def example_read_def)
  with h show ?thesis by simp
qed

text \<open>
  Claim C5.  When the block size of a partition device differs from that of its
  parent, every read returns \<open>-1\<close> (the block size mismatch) and leaves the buffer and
  the world as they were, whatever the parent's \<open>read\<close> is: it is not called.
\<close>

theorem mbr_read_block_size_mismatch:
  assumes "block_size (bd dev) \<noteq> block_size (parent dev)"
  shows "mbr_read (dev \<lparr> parent := (parent dev) \<lparr> read := f \<rparr> \<rparr>) buf buf_size starting_block w
           = ((- 1, buf), w)"
  using assms by (simp add: mbr_read_def)

theorem mbr_read_block_size_mismatch_witness:
  "block_size (bd (make_partition example_parent_4k example_sector 0))
     \<noteq> block_size (parent (make_partition example_parent_4k example_sector 0))
   \<and> mbr_read (make_partition example_parent_4k example_sector 0) [1, 2] 512 5 (0::nat)
       = ((- 1, [1, 2]), 0)"
proof -
  let ?d = "make_partition example_parent_4k example_sector 0"
  have h: "block_size (bd ?d) \<noteq> block_size (parent ?d)"
    by (simp add: make_partition_def Let_def example_parent_4k_def example_parent_def)
  have "?d \<lparr> parent := (parent ?d) \<lparr> read := example_read \<rparr> \<rparr> = ?d"
    by (simp add: make_partition_def Let_def example_parent_4k_def example_parent_def)
  with mbr_read_block_size_mismatch [OF h, of example_read "[1, 2]" 512 5 0] h
  show ?thesis by simp
qed

text \<open>
  Claim C10.  The translation is done on 32-bit unsigned numbers: with equal block
  sizes, the parent is asked for the block
  \<open>(starting_block + start_block) mod 2 ^ 32\<close>.  When the sum of the two numbers
  reaches \<open>2 ^ 32\<close>, the read is not refused: the block asked for is the sum less
  \<open>2 ^ 32\<close>, a block below \<open>starting_block\<close>.
\<close>

theorem mbr_read_wraps:
  assumes "block_size (bd dev) = block_size (parent dev)"
  shows "mbr_read dev buf buf_size starting_block w =
           read (parent dev) buf buf_size
             (of_nat ((unat starting_block + unat (start_block dev)) mod 2 ^ 32)) w
         \<and> (2 ^ 32 \<le> unat starting_block + unat (start_block dev) \<longrightarrow>
              (\<exists>b. mbr_read dev buf buf_size starting_block w
                      = read (parent dev) buf buf_size b w
                  \<and> unat b = unat starting_block + unat (start_block dev) - 2 ^ 32
                  \<and> unat b < unat starting_block))"
proof (intro conjI impI)
  show "mbr_read dev buf buf_size starting_block w =
          read (parent dev) buf buf_size
            (of_nat ((unat starting_block + unat (start_block dev)) mod 2 ^ 32)) w"
    using assms unfolding of_nat_plus_32 by (simp add: mbr_read_def)
next
  assume over: "2 ^ 32 \<le> unat starting_block + unat (start_block dev)"
  have "mbr_read dev buf buf_size starting_block w
          = read (parent dev) buf buf_size (starting_block + start_block dev) w"
    using assms by (simp add: mbr_read_def)
  with unat_plus_32_overflow [OF over] unat_plus_32_lower [OF over]
  show "\<exists>b. mbr_read dev buf buf_size starting_block w = read (parent dev) buf buf_size b w
          \<and> unat b = unat starting_block + unat (start_block dev) - 2 ^ 32
          \<and> unat b < unat starting_block"
    by blast
qed

theorem mbr_read_wraps_witness:
  "block_size (bd example_last_dev) = block_size (parent example_last_dev)
   \<and> (2::nat) ^ 32 \<le> unat (2 :: 32 word) + unat (start_block example_last_dev)
   \<and> mbr_read example_last_dev [] 512 2 (0::nat) = ((1, []), 1)"
proof -
  have h: "block_size (bd example_last_dev) = block_size (parent example_last_dev)"
    by (simp add: example_last_dev_def make_partition_def Let_def example_parent_def)
  have p: "parent example_last_dev = example_parent"
    by (simp add: example_last_dev_def make_partition_def Let_def)
  have s: "start_block example_last_dev = 0xFFFFFFFF"
    by (simp add: example_last_dev_def)
  have "mbr_read example_last_dev [] 512 2 (0::nat)
          = read (parent example_last_dev) [] 512
              (of_nat ((unat (2 :: 32 word) + unat (start_block example_last_dev)) mod 2 ^ 32)) 0"
    using mbr_read_wraps [OF h, of "[]" 512 2 0] by (rule conjunct1)
  then have "mbr_read example_last_dev [] 512 2 (0::nat) = ((1, []), 1)"
    unfolding p s by (simp add: example_parent_def example_read_def)
  with h s show ?thesis by simp
qed

section \<open>Scanning the partition table\<close>

text \<open>
  Claim C1.  Let \<open>block_read\<close> deliver 512 bytes.  The scan fails (with \<open>-1\<close>) exactly
  when byte \<open>0x1FE\<close> is not \<open>0x55\<close> or byte \<open>0x1FF\<close> is not \<open>0xAA\<close>, and succeeds
  (with \<open>0\<close>) otherwise.  On success it looks at the four 16-byte entries at the offsets
  \<open>0x1BE + 16 * i\<close>, \<open>i\<close> from 0 to 3: an entry yields a device exactly when the byte
  at its offset 4, the type code, is not zero, and the device holds that type code, as
  start block the little-endian unsigned number of the four bytes at offset 8 and as
  block count that of the four bytes at offset 12.
\<close>

theorem read_mbr_decodes_table:
  assumes "length block_0 = 512"
    and "block_read ext par 512 0 w = ((512, block_0), w1)"
    and "read_mbr ext (Some par) out w = (ret, out', evs, w')"
  shows "(ret = - 1 \<longleftrightarrow> block_0 ! 0x1FE \<noteq> 0x55 \<or> block_0 ! 0x1FF \<noteq> 0xAA)
       \<and> (ret = 0 \<longleftrightarrow> block_0 ! 0x1FE = 0x55 \<and> block_0 ! 0x1FF = 0xAA)
       \<and> (ret = 0 \<longrightarrow>
            (\<exists>devs. partitions out' = map Some devs @ replicate (4 - length devs) None
               \<and> part_count out' = int (length devs)
               \<and> map part_no devs
                   = map int (filter (\<lambda>i. block_0 ! (0x1BE + 16 * i + 4) \<noteq> 0) [0 ..< 4])
               \<and> map (\<lambda>d. (part_id d, unat (start_block d), unat (blocks d))) devs
                   = map (\<lambda>i. (block_0 ! (0x1BE + 16 * i + 4),
                               le32_value block_0 (0x1BE + 16 * i + 8),
                               le32_value block_0 (0x1BE + 16 * i + 12)))
                       (filter (\<lambda>i. block_0 ! (0x1BE + 16 * i + 4) \<noteq> 0) [0 ..< 4])))"
proof (cases "block_0 ! 0x1FE \<noteq> 0x55 \<or> block_0 ! 0x1FF \<noteq> 0xAA")
  case True
  with assms(3) read_mbr_cases(4) [OF assms(2), of out] show ?thesis by auto
next
  case False
  then have sig: "block_0 ! 0x1fe = 0x55" "block_0 ! 0x1ff = 0xaa" by simp_all
  note res = scan_result [OF assms(2) sig assms(3)]
  from res(2) obtain devs where
    p: "partitions out' = map Some devs @ replicate (4 - length devs) None"
    and c: "part_count out' = int (length devs)"
    and u: "map unbound devs = map (make_partition par block_0) (active_slots block_0 4)"
    by blast
  have a: "active_slots block_0 4 = filter (\<lambda>i. block_0 ! (0x1BE + 16 * i + 4) \<noteq> 0) [0 ..< 4]"
    by (simp add: active_slots_def mult.commute)
  have n: "map part_no devs = map int (active_slots block_0 4)"
    using map_field [OF u, of part_no] by (simp add: unbound_fields make_partition_fields)
  have f: "map (\<lambda>d. (part_id d, unat (start_block d), unat (blocks d))) devs
             = map (\<lambda>i. (block_0 ! (0x1BE + 16 * i + 4),
                         le32_value block_0 (0x1BE + 16 * i + 8),
                         le32_value block_0 (0x1BE + 16 * i + 12))) (active_slots block_0 4)"
    using map_field [OF u, of "\<lambda>d. (part_id d, unat (start_block d), unat (blocks d))"]
    by (simp add: unbound_fields make_partition_fields unat_read_word mult.commute)
  from p c n f have "\<exists>devs. partitions out' = map Some devs @ replicate (4 - length devs) None
               \<and> part_count out' = int (length devs)
               \<and> map part_no devs
                   = map int (filter (\<lambda>i. block_0 ! (0x1BE + 16 * i + 4) \<noteq> 0) [0 ..< 4])
               \<and> map (\<lambda>d. (part_id d, unat (start_block d), unat (blocks d))) devs
                   = map (\<lambda>i. (block_0 ! (0x1BE + 16 * i + 4),
                               le32_value block_0 (0x1BE + 16 * i + 8),
                               le32_value block_0 (0x1BE + 16 * i + 12)))
                       (filter (\<lambda>i. block_0 ! (0x1BE + 16 * i + 4) \<noteq> 0) [0 ..< 4])"
    unfolding a by blast
  with res(1) False show ?thesis by simp
qed

theorem read_mbr_decodes_table_witness:
  "length mixed_sector = 512
   \<and> fst (read_mbr (example_ext 512 mixed_sector) (Some example_parent) example_out 0) = 0
   \<and> (\<exists>devs. partitions (fst (snd (read_mbr (example_ext 512 mixed_sector)
                   (Some example_parent) example_out 0)))
                = map Some devs @ replicate (4 - length devs) None
         \<and> part_count (fst (snd (read_mbr (example_ext 512 mixed_sector)
                   (Some example_parent) example_out 0))) = int (length devs)
         \<and> map part_no devs = [0, 2, 3]
         \<and> map (\<lambda>d. (part_id d, unat (start_block d), unat (blocks d))) devs
             = [(0x0b, 63, 4096), (0x83, 8192, 65536), (0x07, 73728, 131072)])"
proof -
  let ?R = "read_mbr (example_ext 512 mixed_sector) (Some example_parent) example_out 0"
  have r: "?R = (fst ?R, fst (snd ?R), fst (snd (snd ?R)), snd (snd (snd ?R)))" by simp
  have a: "filter (\<lambda>i. mixed_sector ! (0x1BE + 16 * i + 4) \<noteq> 0) [0 ..< 4] = [0, 2, 3]"
    using mixed_sector_active by (simp add: active_slots_def mult.commute)
  note t = read_mbr_decodes_table [OF mixed_sector_length example_block_read r]
  from t mixed_sector_signature have z: "fst ?R = 0" by simp
  with t have "\<exists>devs. partitions (fst (snd ?R)) = map Some devs @ replicate (4 - length devs) None
         \<and> part_count (fst (snd ?R)) = int (length devs)
         \<and> map part_no devs = map int [0, 2, 3]
         \<and> map (\<lambda>d. (part_id d, unat (start_block d), unat (blocks d))) devs
             = map (\<lambda>i. (mixed_sector ! (0x1BE + 16 * i + 4),
                               le32_value mixed_sector (0x1BE + 16 * i + 8),
                               le32_value mixed_sector (0x1BE + 16 * i + 12))) [0, 2, 3]"
    unfolding a by blast
  then have "\<exists>devs. partitions (fst (snd ?R)) = map Some devs @ replicate (4 - length devs) None
         \<and> part_count (fst (snd ?R)) = int (length devs)
         \<and> map part_no devs = [0, 2, 3]
         \<and> map (\<lambda>d. (part_id d, unat (start_block d), unat (blocks d))) devs
             = [(0x0b, 63, 4096), (0x83, 8192, 65536), (0x07, 73728, 131072)]"
    using mixed_sector_entries by simp
  with z mixed_sector_length show ?thesis by blast
qed

text \<open>
  Claim C2.  The name of a device is meant to be the parent's name followed by \<open>_\<close> and
  the digit of the slot.  These are the characters the scan stores, but the buffer it
  stores them into is allocated with the length of the parent's name from its third
  character on: the name of every device of every scan does not lie within its buffer.
  For the parent \<open>sda\<close> and an active slot 0 the scan stores \<open>sda_0\<close> and the
  terminating zero, six bytes, into a buffer of one byte.
\<close>

theorem read_mbr_device_names_overflow:
  assumes "block_read ext par 512 0 w = ((512, block_0), w1)"
    and "block_0 ! 0x1fe = 0x55" and "block_0 ! 0x1ff = 0xaa"
    and "read_mbr ext (Some par) out w = (ret, out', evs, w')"
  shows "\<exists>devs. partitions out' = map Some devs @ replicate (4 - length devs) None
           \<and> part_count out' = int (length devs)
           \<and> map (\<lambda>d. device_name (bd d)) devs
               = map (\<lambda>i. \<lparr> allocated = (if length (stored (device_name par)) < 2 then None
                                          else Some (length (drop 2 (stored (device_name par))))),
                            stored = stored (device_name par)
                                       @ [CHR ''_'', char_of (of_char CHR ''0'' + i)] \<rparr>)
                   (filter (\<lambda>i. block_0 ! (0x1BE + 16 * i + 4) \<noteq> 0) [0 ..< 4])
           \<and> list_all (\<lambda>d. \<not> fits (device_name (bd d))) devs"
proof -
  from scan_result(2) [OF assms] obtain devs where
    p: "partitions out' = map Some devs @ replicate (4 - length devs) None"
    and c: "part_count out' = int (length devs)"
    and u: "map unbound devs = map (make_partition par block_0) (active_slots block_0 4)"
    by blast
  have n: "map (\<lambda>d. device_name (bd d)) devs
             = map (\<lambda>i. \<lparr> allocated = (if length (stored (device_name par)) < 2 then None
                                          else Some (length (drop 2 (stored (device_name par))))),
                            stored = stored (device_name par)
                                       @ [CHR ''_'', char_of (of_char CHR ''0'' + i)] \<rparr>)
                 (active_slots block_0 4)"
    using map_field [OF u, of "\<lambda>d. device_name (bd d)"]
    by (simp only: unbound_name make_partition_name)
  have "\<not> fits (device_name (bd d))" if "d \<in> set devs" for d
  proof -
    from field_of_device [OF u, of "\<lambda>d. device_name (bd d)" d] that
    obtain i where "device_name (bd d) = device_name (bd (make_partition par block_0 i))"
      by (auto simp add: unbound_name)
    then show ?thesis by (simp only: make_partition_name_overflows not_False_eq_True)
  qed
  then have l: "list_all (\<lambda>d. \<not> fits (device_name (bd d))) devs"
    unfolding list_all_iff by (intro ballI)
  from p c n l show ?thesis
    unfolding active_slots_filter by (intro exI [of _ devs] conjI)
qed

theorem read_mbr_device_names_overflow_witness:
  "map_option (\<lambda>d. device_name (bd d))
     (hd (partitions (fst (snd (read_mbr (example_ext 512 example_sector)
        (Some example_parent) example_out 0)))))
     = Some \<lparr> allocated = Some 1, stored = ''sda_0'' \<rparr>
   \<and> \<not> fits \<lparr> allocated = Some 1, stored = ''sda_0'' \<rparr>"
proof -
  let ?R = "read_mbr (example_ext 512 example_sector) (Some example_parent) example_out 0"
  have r: "?R = (fst ?R, fst (snd ?R), fst (snd (snd ?R)), snd (snd (snd ?R)))" by simp
  have s: "stored (device_name example_parent) = ''sda''"
    by (simp add: example_parent_def)
  from read_mbr_device_names_overflow [OF example_block_read example_sector_signature r]
  obtain devs where
    p: "partitions (fst (snd ?R)) = map Some devs @ replicate (4 - length devs) None"
    and n: "map (\<lambda>d. device_name (bd d)) devs
              = map (\<lambda>i. \<lparr> allocated = (if length (stored (device_name example_parent)) < 2
                                           then None
                                           else Some (length (drop 2 (stored (device_name example_parent))))),
                             stored = stored (device_name example_parent)
                                        @ [CHR ''_'', char_of (of_char CHR ''0'' + i)] \<rparr>) [0 :: nat]"
    and l: "list_all (\<lambda>d. \<not> fits (device_name (bd d))) devs"
    unfolding active_slots_filter example_sector_active by (elim exE conjE)
  from n obtain d where d: "devs = [d]"
    and dn: "device_name (bd d) = \<lparr> allocated = Some 1, stored = ''sda_0'' \<rparr>"
    by (cases devs) (auto simp add: s char_of_48)
  from l d dn have f: "\<not> fits \<lparr> allocated = Some 1, stored = ''sda_0'' \<rparr>" by simp
  from p d dn have "map_option (\<lambda>d. device_name (bd d)) (hd (partitions (fst (snd ?R))))
                      = Some \<lparr> allocated = Some 1, stored = ''sda_0'' \<rparr>"
    by simp
  with f show ?thesis by simp
qed

text \<open>
  Claim C3, as amended.  The block size of every device the scan builds is the constant
  512, whatever the block size of the parent: it equals the parent's block size when
  that is 512, and differs from it otherwise.
\<close>

theorem read_mbr_block_size:
  assumes "block_read ext par 512 0 w = ((512, block_0), w1)"
    and "block_0 ! 0x1fe = 0x55" and "block_0 ! 0x1ff = 0xaa"
    and "read_mbr ext (Some par) out w = (ret, out', evs, w')"
  shows "\<exists>devs. partitions out' = map Some devs @ replicate (4 - length devs) None
           \<and> part_count out' = int (length devs)
           \<and> length devs = length (active_slots block_0 4)
           \<and> map parent devs = map (\<lambda>i. par) (active_slots block_0 4)
           \<and> map (\<lambda>d. block_size (bd d)) devs = map (\<lambda>i. 512) (active_slots block_0 4)
           \<and> (block_size par = 512 \<or> list_all (\<lambda>d. block_size (bd d) \<noteq> block_size par) devs)"
proof -
  from scan_result(2) [OF assms] obtain devs where
    p: "partitions out' = map Some devs @ replicate (4 - length devs) None"
    and c: "part_count out' = int (length devs)"
    and u: "map unbound devs = map (make_partition par block_0) (active_slots block_0 4)"
    by blast
  have l: "length devs = length (active_slots block_0 4)"
    using u by (metis length_map)
  have pa: "map parent devs = map (\<lambda>i. par) (active_slots block_0 4)"
    using map_field [OF u, of parent] by (simp add: unbound_fields make_partition_fields)
  have bs: "map (\<lambda>d. block_size (bd d)) devs = map (\<lambda>i. 512) (active_slots block_0 4)"
    using map_field [OF u, of "\<lambda>d. block_size (bd d)"]
    by (simp add: unbound_fields make_partition_fields)
  have "block_size (bd d) = 512" if "d \<in> set devs" for d
    using field_of_device [OF u, of "\<lambda>d. block_size (bd d)" d] that
    by (simp add: unbound_fields make_partition_fields)
  then have "block_size par = 512 \<or> list_all (\<lambda>d. block_size (bd d) \<noteq> block_size par) devs"
    by (auto simp add: list_all_iff)
  with p c l pa bs show ?thesis by blast
qed

theorem read_mbr_block_size_witness:
  "\<exists>devs. partitions (fst (snd (read_mbr (example_ext 512 example_sector)
             (Some example_parent_4k) example_out 0))) = map Some devs @ replicate (4 - length devs) None
     \<and> length devs = 1
     \<and> map (\<lambda>d. block_size (bd d)) devs = [512]
     \<and> list_all (\<lambda>d. block_size (bd d) \<noteq> block_size example_parent_4k) devs"
proof -
  let ?R = "read_mbr (example_ext 512 example_sector) (Some example_parent_4k) example_out 0"
  have r: "?R = (fst ?R, fst (snd ?R), fst (snd (snd ?R)), snd (snd (snd ?R)))" by simp
  have b: "block_size example_parent_4k \<noteq> 512"
    by (simp add: example_parent_4k_def)
  from read_mbr_block_size [OF example_block_read example_sector_signature r]
  show ?thesis
    unfolding example_sector_active using b by auto
qed

text \<open>
  Claim C3 as stated fails: the device built on a parent with blocks of 4096 bytes has
  a block size of 512.
\<close>

theorem read_mbr_block_size_not_inherited:
  "map_option (\<lambda>d. block_size (bd d))
     (hd (partitions (fst (snd (read_mbr (example_ext 512 example_sector)
        (Some example_parent_4k) example_out 0))))) = Some 512
   \<and> block_size example_parent_4k = 4096"
  by (simp add: read_mbr_def example_ext_def example_sector_signature Let_def upt_4
      load_partition_def bind_driver_def make_partition_def example_sector_def nth_append
      replicate_4 [of None]
      example_parent_4k_def example_parent_def)

text \<open>
  Claim C6.  The scan fails (returns a value other than 0) exactly when the parent is
  absent, or the read of block 0 returns an error or a number of bytes other than 512,
  or the signature is missing.  Whenever it fails, the caller's \<open>partitions\<close> and
  \<open>part_count\<close> are as before and no call to a driver or to the registry was made.
\<close>

theorem read_mbr_failure_no_output:
  assumes "read_mbr ext parent_ptr out w = (ret, out', evs, w')"
  shows "((parent_ptr = None
            \<or> (\<exists>par r b w1. parent_ptr = Some par \<and> block_read ext par 512 0 w = ((r, b), w1)
                  \<and> (r < 0 \<or> r \<noteq> 512 \<or> b ! 0x1fe \<noteq> 0x55 \<or> b ! 0x1ff \<noteq> 0xaa)))
          \<longleftrightarrow> ret \<noteq> 0)
         \<and> (ret \<noteq> 0 \<longrightarrow> out' = out \<and> evs = [])"
proof (cases parent_ptr)
  case None
  with assms show ?thesis by (simp add: read_mbr_cases(1))
next
  case (Some par)
  obtain r b w1 where rd: "block_read ext par 512 0 w = ((r, b), w1)"
    by (metis surj_pair)
  consider "r < 0" | "0 \<le> r" "r \<noteq> 512" | "r = 512" "b ! 0x1fe \<noteq> 0x55 \<or> b ! 0x1ff \<noteq> 0xaa"
    | "r = 512" "b ! 0x1fe = 0x55" "b ! 0x1ff = 0xaa"
    by linarith
  then show ?thesis
  proof cases
    case 1
    with assms Some rd show ?thesis by (auto simp add: read_mbr_cases(2))
  next
    case 2
    with assms Some rd show ?thesis by (auto simp add: read_mbr_cases(3))
  next
    case 3
    with assms Some rd show ?thesis by (auto simp add: read_mbr_cases(4))
  next
    case 4
    with assms Some rd scan_result(1) [of ext par w b w1 out ret out' evs w']
    show ?thesis by auto
  qed
qed

theorem read_mbr_failure_no_output_witness:
  "read_mbr (example_ext 512 blank_sector) (Some example_parent) example_out 0
     = (- 1, example_out, [], 1)
   \<and> read_mbr (example_ext 100 example_sector) (Some example_parent) example_out 0
     = (- 1, example_out, [], 1)
   \<and> read_mbr (example_ext (- 5) example_sector) (Some example_parent) example_out 0
     = (- 5, example_out, [], 1)
   \<and> read_mbr (example_ext 512 example_sector) None example_out 0
     = (- 1, example_out, [], 0)"
proof -
  let ?R = "read_mbr (example_ext 512 blank_sector) (Some example_parent) example_out 0"
  have r: "?R = (fst ?R, fst (snd ?R), fst (snd (snd ?R)), snd (snd (snd ?R)))" by simp
  have "fst ?R = - 1" by (simp add: read_mbr_def example_ext_def blank_sector_def)
  with read_mbr_failure_no_output [OF r]
  have "fst (snd ?R) = example_out \<and> fst (snd (snd ?R)) = []" by simp
  moreover have "snd (snd (snd ?R)) = 1" "fst ?R = - 1"
    by (simp_all add: read_mbr_def example_ext_def blank_sector_def)
  ultimately have "?R = (- 1, example_out, [], 1)"
    by (metis r)
  then show ?thesis
    by (simp add: read_mbr_def example_ext_def)
qed

text \<open>
  Claim C7.  Which initialiser runs for an active entry depends on its type code alone,
  by a fixed table.  The \<open>switch\<close> on a device as built runs the FAT initialiser on it
  for a type code among \<open>0x01, 0x04, 0x06, 0x0B, 0x0C, 0x0E, 0x11, 0x14, 0x1B, 0x1C, 0x1E\<close>
  and the ext2 initialiser for \<open>0x83\<close>: the device gets the file system the initialiser
  leaves and the world is the one the initialiser leaves.  For any other type code no
  initialiser runs: the device stays without a file system and the world as it was.  A
  whole scan is the scan by the table over the active slots: the same devices, the same
  calls in the same order, the same world afterwards.
\<close>

theorem read_mbr_driver_binding:
  fixes ext :: "('fs, 'w) externals"
  assumes "block_read ext par 512 0 w = ((512, block_0), w1)"
    and "block_0 ! 0x1fe = 0x55" and "block_0 ! 0x1ff = 0xaa"
    and "read_mbr ext (Some par) out w = (ret, out', evs, w')"
  shows "(\<exists>devs. spec_scan ext par block_0
                   (filter (\<lambda>i. block_0 ! (0x1BE + 16 * i + 4) \<noteq> 0) [0 ..< 4]) w1
                 = (devs, evs, w')
             \<and> partitions out' = map Some devs @ replicate (4 - length devs) None
             \<and> part_count out' = int (length devs))
       \<and> (\<forall>i w0. part_id (make_partition par block_0 i) = block_0 ! (0x1BE + 16 * i + 4)
            \<and> bind_driver ext (make_partition par block_0 i) w0
                = ((with_fs (make_partition par block_0 i)
                      (table_fs ext (make_partition par block_0 i) w0),
                    table_call (make_partition par block_0 i)),
                   table_world ext (make_partition par block_0 i) w0))
       \<and> (\<forall>(d :: ('fs, 'w) mbr_block_dev) w0.
            part_id d \<in> {0x01, 0x04, 0x06, 0x0B, 0x0C, 0x0E, 0x11, 0x14, 0x1B, 0x1C, 0x1E} \<longrightarrow>
              table_call d = [Fat_init d]
              \<and> table_fs ext d w0 = snd (fst (fat_init ext d w0))
              \<and> table_world ext d w0 = snd (fat_init ext d w0))
       \<and> (\<forall>(d :: ('fs, 'w) mbr_block_dev) w0.
            part_id d = 0x83 \<longrightarrow>
              table_call d = [Ext2_init d]
              \<and> table_fs ext d w0 = snd (fst (ext2_init ext d w0))
              \<and> table_world ext d w0 = snd (ext2_init ext d w0))
       \<and> (\<forall>(d :: ('fs, 'w) mbr_block_dev) w0.
            part_id d \<notin> {0x01, 0x04, 0x06, 0x0B, 0x0C, 0x0E, 0x11, 0x14, 0x1B, 0x1C, 0x1E, 0x83} \<longrightarrow>
              table_call d = [] \<and> table_fs ext d w0 = None \<and> table_world ext d w0 = w0)"
proof (intro conjI allI impI)
  obtain devs es wz where
    s: "spec_scan ext par block_0 (active_slots block_0 4) w1 = (devs, es, wz)"
    by (metis prod_cases3)
  from read_mbr_spec_scan [OF assms(1-3), of out] assms(4) s
  have "evs = es" "w' = wz" "partitions out' = map Some devs @ replicate (4 - length devs) None"
    "part_count out' = int (length devs)"
    by auto
  with s show "\<exists>devs. spec_scan ext par block_0
                   (filter (\<lambda>i. block_0 ! (0x1BE + 16 * i + 4) \<noteq> 0) [0 ..< 4]) w1
                 = (devs, evs, w')
             \<and> partitions out' = map Some devs @ replicate (4 - length devs) None
             \<and> part_count out' = int (length devs)"
    unfolding active_slots_filter by (intro exI [of _ devs]) simp
next
  fix i
  show "part_id (make_partition par block_0 i) = block_0 ! (0x1BE + 16 * i + 4)"
    by (simp add: make_partition_fields mult.commute)
next
  fix i w0
  show "bind_driver ext (make_partition par block_0 i) w0
          = ((with_fs (make_partition par block_0 i)
                (table_fs ext (make_partition par block_0 i) w0),
              table_call (make_partition par block_0 i)),
             table_world ext (make_partition par block_0 i) w0)"
    by (rule bind_driver_table [OF make_partition_fs])
next
  fix d :: "('fs, 'w) mbr_block_dev" and w0
  assume a: "part_id d \<in> {0x01, 0x04, 0x06, 0x0B, 0x0C, 0x0E, 0x11, 0x14, 0x1B, 0x1C, 0x1E}"
  then have b: "binding_table (part_id d) = Fat_family" by (simp add: binding_table_def)
  show "table_call d = [Fat_init d]" by (simp add: table_call_def b)
  show "table_fs ext d w0 = snd (fst (fat_init ext d w0))" by (simp add: table_fs_def b)
  show "table_world ext d w0 = snd (fat_init ext d w0)" by (simp add: table_world_def b)
next
  fix d :: "('fs, 'w) mbr_block_dev" and w0
  assume a: "part_id d = 0x83"
  then have b: "binding_table (part_id d) = Ext2_family" by (simp add: binding_table_def)
  show "table_call d = [Ext2_init d]" by (simp add: table_call_def b)
  show "table_fs ext d w0 = snd (fst (ext2_init ext d w0))" by (simp add: table_fs_def b)
  show "table_world ext d w0 = snd (ext2_init ext d w0)" by (simp add: table_world_def b)
next
  fix d :: "('fs, 'w) mbr_block_dev" and w0
  assume a: "part_id d \<notin> {0x01, 0x04, 0x06, 0x0B, 0x0C, 0x0E, 0x11, 0x14, 0x1B, 0x1C, 0x1E, 0x83}"
  then have b: "binding_table (part_id d) = No_driver" by (simp add: binding_table_def)
  show "table_call d = []" by (simp add: table_call_def b)
  show "table_fs ext d w0 = None" by (simp add: table_fs_def b)
  show "table_world ext d w0 = w0" by (simp add: table_world_def b)
qed

theorem read_mbr_driver_binding_witness:
  "fst (snd (snd (read_mbr (example_ext 512 mixed_sector) (Some example_parent) example_out 0)))
     = [Fat_init (make_partition example_parent mixed_sector 0), Vfs_register ''fat'',
        Ext2_init (make_partition example_parent mixed_sector 2)]
   \<and> snd (snd (snd (read_mbr (example_ext 512 mixed_sector) (Some example_parent)
        example_out 0))) = 1111
   \<and> partitions (fst (snd (read_mbr (example_ext 512 mixed_sector) (Some example_parent)
        example_out 0)))
     = [Some (with_fs (make_partition example_parent mixed_sector 0) (Some ''fat'')),
        Some (with_fs (make_partition example_parent mixed_sector 2) None),
        Some (with_fs (make_partition example_parent mixed_sector 3) None),
        None]"
proof -
  let ?R = "read_mbr (example_ext 512 mixed_sector) (Some example_parent) example_out 0"
  have r: "?R = (fst ?R, fst (snd ?R), fst (snd (snd ?R)), snd (snd (snd ?R)))" by simp
  note t = read_mbr_driver_binding [OF example_block_read mixed_sector_signature r]
  from t have "\<exists>devs. spec_scan (example_ext 512 mixed_sector) example_parent mixed_sector
                   [0, 2, 3] (Suc 0)
                 = (devs, fst (snd (snd ?R)), snd (snd (snd ?R)))
             \<and> partitions (fst (snd ?R)) = map Some devs @ replicate (4 - length devs) None
             \<and> part_count (fst (snd ?R)) = int (length devs)"
    unfolding active_slots_filter mixed_sector_active by (rule conjunct1)
  then obtain devs where
    s: "spec_scan (example_ext 512 mixed_sector) example_parent mixed_sector [0, 2, 3] (Suc 0)
          = (devs, fst (snd (snd ?R)), snd (snd (snd ?R)))"
    and p: "partitions (fst (snd ?R)) = map Some devs @ replicate (4 - length devs) None"
    by (elim exE conjE)
  from s mixed_sector_spec_scan [of 512 mixed_sector]
  have d: "devs = [with_fs (make_partition example_parent mixed_sector 0) (Some ''fat''),
                   with_fs (make_partition example_parent mixed_sector 2) None,
                   with_fs (make_partition example_parent mixed_sector 3) None]"
    and e: "fst (snd (snd ?R)) = [Fat_init (make_partition example_parent mixed_sector 0),
              Vfs_register ''fat'', Ext2_init (make_partition example_parent mixed_sector 2)]"
    and w: "snd (snd (snd ?R)) = 1111"
    by simp_all
  from p d have "partitions (fst (snd ?R))
     = [Some (with_fs (make_partition example_parent mixed_sector 0) (Some ''fat'')),
        Some (with_fs (make_partition example_parent mixed_sector 2) None),
        Some (with_fs (make_partition example_parent mixed_sector 3) None),
        None]"
    by simp
  with e w show ?thesis by (intro conjI)
qed

text \<open>
  Claim C8.  With a valid signature the scan returns 0 whatever the initialisers do.
  Every active entry has its device in the result, with the file system the initialiser
  of its type code left: none when the table has no initialiser for the type code, none
  when the initialiser left none.  In the body of the loop the device is stored at
  \<open>parts[cur_p]\<close> and the counter goes up whatever was left, and the registrar runs on
  the world the initialiser left exactly when a file system was left: then the world
  afterwards is the registrar's, otherwise it is the initialiser's.  So the file systems
  handed to the registrar in a scan are the file systems bound to the devices of the
  result, in order, and the world after the scan is that of the scan by the table.
\<close>

theorem read_mbr_keeps_unbound_devices:
  fixes ext :: "('fs, 'w) externals"
  assumes "block_read ext par 512 0 w = ((512, block_0), w1)"
    and "block_0 ! 0x1fe = 0x55" and "block_0 ! 0x1ff = 0xaa"
    and "read_mbr ext (Some par) out w = (ret, out', evs, w')"
  shows "ret = 0
       \<and> (\<exists>devs. partitions out' = map Some devs @ replicate (4 - length devs) None
             \<and> part_count out' = int (length devs)
             \<and> map unbound devs
                 = map (make_partition par block_0)
                     (filter (\<lambda>i. block_0 ! (0x1BE + 16 * i + 4) \<noteq> 0) [0 ..< 4])
             \<and> spec_scan ext par block_0
                   (filter (\<lambda>i. block_0 ! (0x1BE + 16 * i + 4) \<noteq> 0) [0 ..< 4]) w1
                 = (devs, evs, w')
             \<and> registered evs = bound_fs devs)
       \<and> (\<forall>st i. block_0 ! (0x1BE + 16 * i + 4) \<noteq> 0 \<longrightarrow>
            load_partition ext par block_0 st i =
              (let d = make_partition par block_0 i;
                   f = table_fs ext d (world st);
                   wi = table_world ext d (world st)
               in \<lparr> parts = (parts st) [nat (cur_p st) := Some (with_fs d f)],
                    cur_p = cur_p st + 1,
                    events = events st @ table_call d @ fst (registration ext f wi),
                    world = snd (registration ext f wi) \<rparr>))
       \<and> (\<forall>x w0. registration ext (Some x) w0 = ([Vfs_register x], vfs_register ext x w0))
       \<and> (\<forall>w0. registration ext None w0 = ([], w0))
       \<and> (\<forall>(d :: ('fs, 'w) mbr_block_dev) w0.
            table_fs ext d w0 =
              (if part_id d \<in> {0x01, 0x04, 0x06, 0x0B, 0x0C, 0x0E, 0x11, 0x14, 0x1B, 0x1C, 0x1E}
               then snd (fst (fat_init ext d w0))
               else if part_id d = 0x83 then snd (fst (ext2_init ext d w0)) else None))"
proof (intro conjI allI impI)
  show "ret = 0" by (rule scan_result(1) [OF assms])
next
  from scan_result(2) [OF assms] obtain devs where
    p: "partitions out' = map Some devs @ replicate (4 - length devs) None"
    and c: "part_count out' = int (length devs)"
    and u: "map unbound devs = map (make_partition par block_0) (active_slots block_0 4)"
    and g: "registered evs = bound_fs devs"
    by blast
  obtain ds es wz where
    s: "spec_scan ext par block_0 (active_slots block_0 4) w1 = (ds, es, wz)"
    by (metis prod_cases3)
  from read_mbr_spec_scan [OF assms(1-3), of out] assms(4) s
  have "evs = es" "w' = wz" and q: "partitions out' = map Some ds @ replicate (4 - length ds) None"
    and cq: "part_count out' = int (length ds)"
    by auto
  from c cq have "length ds = length devs" by simp
  with p q have "map Some ds = map Some devs" by simp
  then have "ds = devs" by (simp add: inj_map_eq_map)
  with s \<open>evs = es\<close> \<open>w' = wz\<close>
  have s': "spec_scan ext par block_0 (active_slots block_0 4) w1 = (devs, evs, w')" by simp
  from p c u s' g
  show "\<exists>devs. partitions out' = map Some devs @ replicate (4 - length devs) None
             \<and> part_count out' = int (length devs)
             \<and> map unbound devs
                 = map (make_partition par block_0)
                     (filter (\<lambda>i. block_0 ! (0x1BE + 16 * i + 4) \<noteq> 0) [0 ..< 4])
             \<and> spec_scan ext par block_0
                   (filter (\<lambda>i. block_0 ! (0x1BE + 16 * i + 4) \<noteq> 0) [0 ..< 4]) w1
                 = (devs, evs, w')
             \<and> registered evs = bound_fs devs"
    unfolding active_slots_filter by (intro exI [of _ devs] conjI)
next
  fix st :: "('fs, 'w) loop_state" and i
  assume "block_0 ! (0x1BE + 16 * i + 4) \<noteq> 0"
  then have "block_0 ! (0x1be + i * 0x10 + 4) \<noteq> 0" by (simp add: mult.commute)
  then show "load_partition ext par block_0 st i =
              (let d = make_partition par block_0 i;
                   f = table_fs ext d (world st);
                   wi = table_world ext d (world st)
               in \<lparr> parts = (parts st) [nat (cur_p st) := Some (with_fs d f)],
                    cur_p = cur_p st + 1,
                    events = events st @ table_call d @ fst (registration ext f wi),
                    world = snd (registration ext f wi) \<rparr>)"
    by (rule load_partition_active_eq)
next
  fix x w0
  show "registration ext (Some x) w0 = ([Vfs_register x], vfs_register ext x w0)"
    by (simp add: registration_def)
next
  fix w0
  show "registration ext None w0 = ([], w0)"
    by (simp add: registration_def)
next
  fix d :: "('fs, 'w) mbr_block_dev" and w0
  show "table_fs ext d w0 =
              (if part_id d \<in> {0x01, 0x04, 0x06, 0x0B, 0x0C, 0x0E, 0x11, 0x14, 0x1B, 0x1C, 0x1E}
               then snd (fst (fat_init ext d w0))
               else if part_id d = 0x83 then snd (fst (ext2_init ext d w0)) else None)"
    by (simp add: table_fs_def binding_table_def)
qed

theorem read_mbr_keeps_unbound_devices_witness:
  "read_mbr (example_ext 512 example_sector) (Some example_parent) example_out 0
     = (0,
        \<lparr> partitions = [Some (with_fs (make_partition example_parent example_sector 0) None),
                         None, None, None],
          part_count = 1 \<rparr>,
        [Ext2_init (make_partition example_parent example_sector 0)],
        101)
   \<and> registered [Ext2_init (make_partition example_parent example_sector 0)
                   :: (string, nat) event] = []"
proof -
  let ?R = "read_mbr (example_ext 512 example_sector) (Some example_parent) example_out 0"
  have r: "?R = (fst ?R, fst (snd ?R), fst (snd (snd ?R)), snd (snd (snd ?R)))" by simp
  note t = read_mbr_keeps_unbound_devices [OF example_block_read example_sector_signature r]
  from t have z: "fst ?R = 0" by (rule conjunct1)
  from t have "\<exists>devs. partitions (fst (snd ?R)) = map Some devs @ replicate (4 - length devs) None
             \<and> part_count (fst (snd ?R)) = int (length devs)
             \<and> map unbound devs = map (make_partition example_parent example_sector) [0]
             \<and> spec_scan (example_ext 512 example_sector) example_parent example_sector [0] (Suc 0)
                 = (devs, fst (snd (snd ?R)), snd (snd (snd ?R)))
             \<and> registered (fst (snd (snd ?R))) = bound_fs devs"
    unfolding active_slots_filter example_sector_active by (rule conjunct2 [THEN conjunct1])
  then obtain devs where
    p: "partitions (fst (snd ?R)) = map Some devs @ replicate (4 - length devs) None"
    and c: "part_count (fst (snd ?R)) = int (length devs)"
    and s: "spec_scan (example_ext 512 example_sector) example_parent example_sector [0] (Suc 0)
              = (devs, fst (snd (snd ?R)), snd (snd (snd ?R)))"
    by (elim exE conjE)
  from s example_sector_spec_scan [of 512 example_sector]
  have d: "devs = [with_fs (make_partition example_parent example_sector 0) None]"
    and e: "fst (snd (snd ?R)) = [Ext2_init (make_partition example_parent example_sector 0)]"
    and w: "snd (snd (snd ?R)) = 101"
    by simp_all
  from p c d have o: "fst (snd ?R)
      = \<lparr> partitions = [Some (with_fs (make_partition example_parent example_sector 0) None),
                         None, None, None],
          part_count = 1 \<rparr>"
    by (cases "fst (snd ?R)") (simp add: replicate_4 eval_nat_numeral)
  have "?R = (0, \<lparr> partitions = [Some (with_fs (make_partition example_parent example_sector 0) None),
                         None, None, None], part_count = 1 \<rparr>,
        [Ext2_init (make_partition example_parent example_sector 0)], 101)"
    using r z o e w by simp
  then show ?thesis by simp
qed

text \<open>
  Claim C9, as amended.  The scan returns \<open>-1\<close> for an absent parent, \<open>-1\<close> for a read
  of block 0 that returns a number of bytes other than 512, \<open>-1\<close> for a missing
  signature, and the negative value of the read itself when the read fails; it returns
  0 on success.  The value returned tells failure from success, and does not tell these
  kinds of failure from each other.
\<close>

theorem read_mbr_status:
  assumes "read_mbr ext parent_ptr out w = (ret, out', evs, w')"
  shows "(parent_ptr = None \<longrightarrow> ret = - 1)
         \<and> (\<forall>par r b w1. parent_ptr = Some par \<and> block_read ext par 512 0 w = ((r, b), w1) \<longrightarrow>
              (r < 0 \<longrightarrow> ret = r)
              \<and> (0 \<le> r \<and> r \<noteq> 512 \<longrightarrow> ret = - 1)
              \<and> (r = 512 \<and> (b ! 0x1fe \<noteq> 0x55 \<or> b ! 0x1ff \<noteq> 0xaa) \<longrightarrow> ret = - 1)
              \<and> (r = 512 \<and> b ! 0x1fe = 0x55 \<and> b ! 0x1ff = 0xaa \<longrightarrow> ret = 0))
         \<and> (ret = 0 \<or> ret < 0)"
proof (intro conjI allI impI)
  assume "parent_ptr = None"
  with assms show "ret = - 1" by (simp add: read_mbr_cases(1))
next
  fix par r b w1
  assume a: "parent_ptr = Some par \<and> block_read ext par 512 0 w = ((r, b), w1)"
  { assume "r < 0"
    with assms a show "ret = r" by (simp add: read_mbr_cases(2)) }
  { assume "0 \<le> r \<and> r \<noteq> 512"
    with assms a show "ret = - 1" by (simp add: read_mbr_cases(3)) }
  { assume "r = 512 \<and> (b ! 0x1fe \<noteq> 0x55 \<or> b ! 0x1ff \<noteq> 0xaa)"
    with assms a show "ret = - 1" by (simp add: read_mbr_cases(4)) }
  { assume "r = 512 \<and> b ! 0x1fe = 0x55 \<and> b ! 0x1ff = 0xaa"
    with assms a scan_result(1) [of ext par w b w1 out ret out' evs w']
    show "ret = 0" by simp }
next
  from assms show "ret = 0 \<or> ret < 0" by (rule read_mbr_sign)
qed

theorem read_mbr_status_witness:
  "fst (read_mbr (example_ext 512 blank_sector) (Some example_parent) example_out 0) = - 1
   \<and> fst (read_mbr (example_ext 512 example_sector) None example_out 0) = - 1"
proof -
  let ?R = "read_mbr (example_ext 512 blank_sector) (Some example_parent) example_out 0"
  let ?N = "read_mbr (example_ext 512 example_sector) None example_out 0"
  have r: "?R = (fst ?R, fst (snd ?R), fst (snd (snd ?R)), snd (snd (snd ?R)))" by simp
  have n: "?N = (fst ?N, fst (snd ?N), fst (snd (snd ?N)), snd (snd (snd ?N)))" by simp
  have "fst ?N = - 1" using read_mbr_status [OF n] by simp
  moreover have "fst ?R = - 1"
    using read_mbr_status [OF r] example_block_read [of 512 blank_sector example_parent 0]
      blank_sector_signature
    by simp
  ultimately show ?thesis by simp
qed

text \<open>
  Claim C9 as stated fails: a missing signature, a short read, a read failing with
  \<open>-1\<close> and an absent parent all give the same value.
\<close>

theorem read_mbr_failure_values_coincide:
  "fst (read_mbr (example_ext 512 blank_sector) (Some example_parent) example_out 0)
     = fst (read_mbr (example_ext 100 example_sector) (Some example_parent) example_out 0)
   \<and> fst (read_mbr (example_ext 512 blank_sector) (Some example_parent) example_out 0)
     = fst (read_mbr (example_ext (- 1) example_sector) (Some example_parent) example_out 0)
   \<and> fst (read_mbr (example_ext 512 blank_sector) (Some example_parent) example_out 0)
     = fst (read_mbr (example_ext 512 example_sector) None example_out 0)"
  by (simp add: read_mbr_def example_ext_def blank_sector_def)

end
